theory Spec2Isabelle
  imports Complex_Main "HOL-Library.Sublist"
begin

text \<open>
  The scripts of a personal site: the listing of blog posts with its filters and its
  pagination (\<open>BlogManager\<close>), the switch between English and Portuguese (\<open>I18n\<close>), and the
  colour theme (\<open>ThemeManager\<close>). Each method is a function of the model under the name it
  has in the source, prefixed with its class where two classes share a name; what a
  method writes (fields, local storage, the page) is returned as the new state, and what
  it can raise is returned as a value.
\<close>

section \<open>Blog listing (BlogManager)\<close>

text \<open>
  An exception raised by the JavaScript is a value of the model: the only one the modelled
  code can raise is the \<open>TypeError\<close> of calling a method on \<open>undefined\<close>.
\<close>

datatype js_error = TypeError

text \<open>
  A post of \<open>blog-posts.json\<close>. \<open>title\<close> and \<open>excerpt\<close> are objects keyed by language code
  (association lists here); \<open>date\<close> is the time value of \<open>new Date(post.date)\<close> in
  milliseconds, every date being taken to parse; \<open>published\<close> is the published flag, a
  boolean. The fields that only the cards show (reading time, image) are left out.
\<close>

record post =
  post_id :: string
  title :: "(string \<times> string) list"
  excerpt :: "(string \<times> string) list"
  category :: string
  tags :: "string list"
  date :: int
  published :: bool

text \<open>
  The fields of \<open>BlogManager\<close> that filtering and pagination read (\<open>categories\<close> and \<open>tags\<close>
  only label what is shown). \<open>postsPerPage\<close> is assigned once, in the constructor, and never
  written again: it is a constant of the model. \<open>currentTag\<close> is \<open>null\<close> (\<open>None\<close>) or a string.
\<close>

record BlogManager =
  posts :: "post list"
  currentPage :: int
  currentCategory :: string
  currentTag :: "string option"
  searchQuery :: string

definition postsPerPage :: int where
  "postsPerPage = 6"

definition BlogManager_constructor :: BlogManager where
  "BlogManager_constructor = \<lparr>posts = [], currentPage = 1, currentCategory = ''all'',
     currentTag = None, searchQuery = ''''\<rparr>"

text \<open>
  \<open>init\<close>: the fetched document, \<open>None\<close> when the fetch or the parse fails (the \<open>catch\<close>
  branch leaves \<open>this.posts\<close> empty). Only the posts whose flag is set are kept.
\<close>

definition BlogManager_init :: "post list option \<Rightarrow> BlogManager" where
  "BlogManager_init data = (case data of
      None \<Rightarrow> BlogManager_constructor
    | Some ps \<Rightarrow> BlogManager_constructor\<lparr>posts := filter published ps\<rparr>)"

text \<open>
  \<open>getCurrentLang\<close>: \<open>window.i18n?.getLanguage() || 'en'\<close>. The argument is the language of
  \<open>window.i18n\<close>, \<open>None\<close> when that object is absent; the empty string is falsy.
\<close>

definition getCurrentLang :: "string option \<Rightarrow> string" where
  "getCurrentLang i18n_lang = (case i18n_lang of
      None \<Rightarrow> ''en''
    | Some l \<Rightarrow> if l = '''' then ''en'' else l)"

text \<open>
  Strings are lists of characters. \<open>String.prototype.toLowerCase\<close> is modelled on the ASCII
  letters, the other characters staying as they are; \<open>String.prototype.includes\<close> holds
  when the query occurs as a contiguous run of the text.
\<close>

definition lower_char :: "char \<Rightarrow> char" where
  "lower_char c = (case map_of (zip ''ABCDEFGHIJKLMNOPQRSTUVWXYZ'' ''abcdefghijklmnopqrstuvwxyz'') c of
      None \<Rightarrow> c
    | Some d \<Rightarrow> d)"

definition toLowerCase :: "string \<Rightarrow> string" where
  "toLowerCase s = map lower_char s"

fun includes_str :: "string \<Rightarrow> string \<Rightarrow> bool" where
  "includes_str [] q = (q = [])"
| "includes_str (c # s) q = (prefix q (c # s) \<or> includes_str s q)"

text \<open>
  The search callback of \<open>getFilteredPosts\<close>: \<open>post.title[lang].toLowerCase()\<close> and then
  \<open>post.excerpt[lang].toLowerCase()\<close> are both evaluated before the test, and each raises
  when the object has no entry for the language.
\<close>

definition matchesQuery :: "string \<Rightarrow> string \<Rightarrow> post \<Rightarrow> js_error + bool" where
  "matchesQuery query lang p = (case map_of (title p) lang of
      None \<Rightarrow> Inl TypeError
    | Some t \<Rightarrow> (case map_of (excerpt p) lang of
        None \<Rightarrow> Inl TypeError
      | Some e \<Rightarrow> Inr (includes_str (toLowerCase t) query \<or> includes_str (toLowerCase e) query)))"

text \<open>\<open>Array.prototype.filter\<close> with a callback that may raise: the first raise ends it.\<close>

fun filterE :: "('a \<Rightarrow> js_error + bool) \<Rightarrow> 'a list \<Rightarrow> js_error + 'a list" where
  "filterE f [] = Inr []"
| "filterE f (x # xs) = (case f x of
      Inl e \<Rightarrow> Inl e
    | Inr b \<Rightarrow> (case filterE f xs of
        Inl e \<Rightarrow> Inl e
      | Inr ys \<Rightarrow> Inr (if b then x # ys else ys)))"

text \<open>
  \<open>getFilteredPosts\<close>. The three filters are applied in the source's order, each under its
  guard (\<open>null\<close> and the empty string are falsy); the sort is the stable sort by date,
  newest first.
\<close>

definition byCategory :: "BlogManager \<Rightarrow> post list \<Rightarrow> post list" where
  "byCategory b ps = (if currentCategory b \<noteq> ''all''
     then filter (\<lambda>p. category p = currentCategory b) ps else ps)"

definition byTag :: "BlogManager \<Rightarrow> post list \<Rightarrow> post list" where
  "byTag b ps = (case currentTag b of
      None \<Rightarrow> ps
    | Some t \<Rightarrow> if t = '''' then ps else filter (\<lambda>p. t \<in> set (tags p)) ps)"

definition bySearch :: "BlogManager \<Rightarrow> string option \<Rightarrow> post list \<Rightarrow> js_error + post list" where
  "bySearch b i18n_lang ps = (if searchQuery b \<noteq> ''''
     then filterE (matchesQuery (toLowerCase (searchQuery b)) (getCurrentLang i18n_lang)) ps
     else Inr ps)"

definition sortByDate :: "post list \<Rightarrow> post list" where
  "sortByDate ps = sort_key (\<lambda>p. - date p) ps"

definition getFilteredPosts :: "BlogManager \<Rightarrow> string option \<Rightarrow> js_error + post list" where
  "getFilteredPosts b i18n_lang = (case bySearch b i18n_lang (byTag b (byCategory b (posts b))) of
      Inl e \<Rightarrow> Inl e
    | Inr filtered \<Rightarrow> Inr (sortByDate filtered))"

text \<open>
  \<open>Array.prototype.slice(start, end)\<close> on integer arguments: a negative index counts from
  the end, and both are clamped to the array.
\<close>

definition slice :: "'a list \<Rightarrow> int \<Rightarrow> int \<Rightarrow> 'a list" where
  "slice xs start fin = (let
      len = int (length xs);
      k = (if start < 0 then max (len + start) 0 else min start len);
      final = (if fin < 0 then max (len + fin) 0 else min fin len)
    in take (nat (final - k)) (drop (nat k) xs))"

definition getPaginatedPosts :: "BlogManager \<Rightarrow> string option \<Rightarrow> js_error + post list" where
  "getPaginatedPosts b i18n_lang = (case getFilteredPosts b i18n_lang of
      Inl e \<Rightarrow> Inl e
    | Inr filtered \<Rightarrow>
        (let start = (currentPage b - 1) * postsPerPage;
             fin = start + postsPerPage
         in Inr (slice filtered start fin)))"

definition getTotalPages :: "BlogManager \<Rightarrow> string option \<Rightarrow> js_error + int" where
  "getTotalPages b i18n_lang = (case getFilteredPosts b i18n_lang of
      Inl e \<Rightarrow> Inl e
    | Inr filtered \<Rightarrow> Inr \<lceil>rat_of_nat (length filtered) / rat_of_int postsPerPage\<rceil>)"

section \<open>Localization (I18n)\<close>

text \<open>
  The values that a translation table holds and that a property access on it can give.
  \<open>translations.json\<close> is a nesting of objects with display strings at the leaves: \<open>Obj\<close> is an
  object by its own properties (the first entry of a name counts), \<open>Str\<close> a string. An object made by \<open>JSON.parse\<close> inherits from
  \<open>Object.prototype\<close>, so \<open>value[k]\<close> also finds the members of that prototype when the object
  has no own property \<open>k\<close>: \<open>Builtin k\<close> is the built-in function of that name,
  \<open>ObjectPrototype\<close> the prototype object itself (the value of \<open>__proto__\<close>), whose own
  \<open>__proto__\<close> is \<open>null\<close>.
\<close>

datatype jsval =
    Undefined
  | Null
  | Str string
  | Obj "(string \<times> jsval) list"
  | ObjectPrototype
  | Builtin string

definition objectPrototypeMembers :: "string list" where
  "objectPrototypeMembers =
     [''constructor'', ''hasOwnProperty'', ''isPrototypeOf'', ''propertyIsEnumerable'',
      ''toLocaleString'', ''toString'', ''valueOf'', ''__defineGetter__'', ''__defineSetter__'',
      ''__lookupGetter__'', ''__lookupSetter__'']"

text \<open>\<open>value[k]\<close> where \<open>value\<close> is \<open>Object.prototype\<close>, and where it is an object inheriting from it.\<close>

definition prototypeProp :: "string \<Rightarrow> jsval" where
  "prototypeProp k = (if k = ''__proto__'' then Null
     else if k \<in> set objectPrototypeMembers then Builtin k else Undefined)"

definition objectProp :: "(string \<times> jsval) list \<Rightarrow> string \<Rightarrow> jsval" where
  "objectProp kvs k = (case map_of kvs k of
      Some v \<Rightarrow> v
    | None \<Rightarrow> if k = ''__proto__'' then ObjectPrototype else prototypeProp k)"

text \<open>
  \<open>getProp\<close> is \<open>value[k]\<close>. \<open>translate\<close> reads a property only under the guard
  \<open>value && typeof value === 'object'\<close>, that is of an \<open>Obj\<close> or of \<open>ObjectPrototype\<close>; the
  last equation is never reached from it.
\<close>

fun getProp :: "jsval \<Rightarrow> string \<Rightarrow> jsval" where
  "getProp (Obj kvs) k = objectProp kvs k"
| "getProp ObjectPrototype k = prototypeProp k"
| "getProp v k = Undefined"

definition truthy :: "jsval \<Rightarrow> bool" where
  "truthy v = (v \<noteq> Undefined \<and> v \<noteq> Null \<and> v \<noteq> Str '''')"

fun typeof :: "jsval \<Rightarrow> string" where
  "typeof Undefined = ''undefined''"
| "typeof Null = ''object''"
| "typeof (Str s) = ''string''"
| "typeof (Obj kvs) = ''object''"
| "typeof ObjectPrototype = ''object''"
| "typeof (Builtin k) = ''function''"

text \<open>\<open>key.split('.')\<close>: the pieces between the dots; never the empty list.\<close>

fun split_dot :: "string \<Rightarrow> string list" where
  "split_dot [] = [[]]"
| "split_dot (c # cs) = (if c = CHR ''.'' then [] # split_dot cs
     else (c # hd (split_dot cs)) # tl (split_dot cs))"

text \<open>
  A subscriber is a callback on the rest of the page (the state \<open>'w\<close>): it gets the
  language code and gives the state it leaves, with the exception it raised, if any.
  In the record of the module, \<open>translationTable\<close> is the field \<open>this.translations\<close>.
\<close>

type_synonym 'w callback = "string \<Rightarrow> 'w \<Rightarrow> 'w \<times> js_error option"

record 'w I18n =
  currentLang :: string
  translationTable :: "(string \<times> jsval) list"
  observers :: "'w callback list"

text \<open>The constructor: \<open>localStorage.getItem('language') || 'en'\<close>, no table, no observer.\<close>

definition I18n_constructor :: "string option \<Rightarrow> 'w I18n" where
  "I18n_constructor stored =
     \<lparr>currentLang = (case stored of None \<Rightarrow> ''en'' | Some s \<Rightarrow> if s = '''' then ''en'' else s),
      translationTable = [], observers = []\<rparr>"

text \<open>
  The loop of \<open>translate\<close>: \<open>None\<close> is the \<open>return key\<close> inside the loop, \<open>Some v\<close> the value
  the loop ends with.
\<close>

fun walk :: "jsval \<Rightarrow> string list \<Rightarrow> jsval option" where
  "walk v [] = Some v"
| "walk v (k # ks) = (if truthy v \<and> typeof v = ''object'' then walk (getProp v k) ks else None)"

definition translate :: "'w I18n \<Rightarrow> string \<Rightarrow> jsval" where
  "translate i key =
     (case walk (objectProp (translationTable i) (currentLang i)) (split_dot key) of
        None \<Rightarrow> Str key
      | Some v \<Rightarrow> if truthy v then v else Str key)"

text \<open>
  The page as the module sees it: the stored language, the elements carrying
  \<open>data-i18n\<close> or \<open>data-i18n-title\<close> (with the value last assigned to their text, placeholder
  and title), the \<open>lang\<close> of the document, the language buttons (their \<open>data-lang\<close> and whether
  they are active), and the state \<open>view\<close> that the subscribers act on.
\<close>

record element =
  data_i18n :: "string option"
  data_i18n_title :: "string option"
  text_input :: bool
  textContent :: jsval
  placeholder :: jsval
  title_attr :: jsval

record 'w browser =
  i18n :: "'w I18n"
  stored_language :: "string option"
  elements :: "element list"
  document_lang :: string
  lang_buttons :: "(string option \<times> bool) list"
  view :: 'w

definition apply_text :: "'w I18n \<Rightarrow> element \<Rightarrow> element" where
  "apply_text i e = (case data_i18n e of
      None \<Rightarrow> e
    | Some key \<Rightarrow> if text_input e then e\<lparr>placeholder := translate i key\<rparr>
                  else e\<lparr>textContent := translate i key\<rparr>)"

definition apply_title :: "'w I18n \<Rightarrow> element \<Rightarrow> element" where
  "apply_title i e = (case data_i18n_title e of
      None \<Rightarrow> e
    | Some key \<Rightarrow> e\<lparr>title_attr := translate i key\<rparr>)"

definition applyTranslations :: "'w browser \<Rightarrow> 'w browser" where
  "applyTranslations w = w\<lparr>
     elements := map (apply_title (i18n w)) (map (apply_text (i18n w)) (elements w)),
     document_lang := currentLang (i18n w)\<rparr>"

definition updateLangButtons :: "'w browser \<Rightarrow> 'w browser" where
  "updateLangButtons w = w\<lparr>
     lang_buttons := map (\<lambda>(lang, active). (lang, lang = Some (currentLang (i18n w)))) (lang_buttons w)\<rparr>"

text \<open>
  \<open>notifyObservers\<close>: \<open>forEach\<close> calls the callbacks in the order of registration; a callback
  that raises ends the loop, and the exception leaves \<open>setLanguage\<close>.
\<close>

fun callAll :: "'w callback list \<Rightarrow> string \<Rightarrow> 'w \<Rightarrow> 'w \<times> js_error option" where
  "callAll [] lang v = (v, None)"
| "callAll (cb # cbs) lang v = (case cb lang v of
      (v', Some e) \<Rightarrow> (v', Some e)
    | (v', None) \<Rightarrow> callAll cbs lang v')"

definition notifyObservers :: "'w browser \<Rightarrow> 'w browser \<times> js_error option" where
  "notifyObservers w = (case callAll (observers (i18n w)) (currentLang (i18n w)) (view w) of
      (v, r) \<Rightarrow> (w\<lparr>view := v\<rparr>, r))"

text \<open>
  The state on which the \<open>j\<close>-th subscriber is called when those before it have returned: each
  gets the state that the one before it left.
\<close>

definition stateBefore :: "'w callback list \<Rightarrow> string \<Rightarrow> 'w \<Rightarrow> nat \<Rightarrow> 'w" where
  "stateBefore cbs lang v j = fold (\<lambda>cb v. fst (cb lang v)) (take j cbs) v"

definition subscribe :: "'w callback \<Rightarrow> 'w browser \<Rightarrow> 'w browser" where
  "subscribe cb w = w\<lparr>i18n := (i18n w)\<lparr>observers := observers (i18n w) @ [cb]\<rparr>\<rparr>"

text \<open>
  \<open>setLanguage\<close>. The argument is what the caller read from \<open>data-lang\<close>: any value that is
  not the string \<open>'en'\<close> or \<open>'pt'\<close> takes the early return.
\<close>

definition setLanguage :: "jsval \<Rightarrow> 'w browser \<Rightarrow> 'w browser \<times> js_error option" where
  "setLanguage lang w = (case lang of
      Str code \<Rightarrow>
        if code \<noteq> ''en'' \<and> code \<noteq> ''pt'' then (w, None)
        else notifyObservers (updateLangButtons (applyTranslations
               (w\<lparr>i18n := (i18n w)\<lparr>currentLang := code\<rparr>, stored_language := Some code\<rparr>)))
    | _ \<Rightarrow> (w, None))"

definition I18n_init :: "(string \<times> jsval) list option \<Rightarrow> 'w browser \<Rightarrow> 'w browser" where
  "I18n_init fetched w = (case fetched of
      None \<Rightarrow> w
    | Some table \<Rightarrow> updateLangButtons (applyTranslations (w\<lparr>i18n := (i18n w)\<lparr>translationTable := table\<rparr>\<rparr>)))"

section \<open>Theme (ThemeManager)\<close>

text \<open>
  \<open>parseInt(string, radix)\<close> after the language standard: leading white space (of the
  ASCII range) is dropped,
  then a sign; a radix of \<open>0\<close> (or none) means \<open>10\<close>; with radix \<open>0\<close> or \<open>16\<close> a prefix
  \<open>0x\<close> or \<open>0X\<close> is dropped and selects \<open>16\<close>; the longest run of digits of the radix is read;
  no digit gives \<open>NaN\<close> (\<open>None\<close>). The result is the exact integer.
\<close>

definition is_space :: "char \<Rightarrow> bool" where
  "is_space c = (c \<in> set [CHR 0x09, CHR 0x0A, CHR 0x0B, CHR 0x0C, CHR 0x0D, CHR '' ''])"

definition digit_chars :: string where
  "digit_chars = ''0123456789abcdefghijklmnopqrstuvwxyz''"

definition digit_of :: "char \<Rightarrow> nat option" where
  "digit_of c = map_of (zip (digit_chars @ ''ABCDEFGHIJKLMNOPQRSTUVWXYZ'') ([0..<36] @ [10..<36])) c"

definition is_digit :: "nat \<Rightarrow> char \<Rightarrow> bool" where
  "is_digit R c = (case digit_of c of None \<Rightarrow> False | Some d \<Rightarrow> d < R)"

definition digits_value :: "nat \<Rightarrow> string \<Rightarrow> int" where
  "digits_value R z = foldl (\<lambda>a c. a * int R + int (the (digit_of c))) 0 z"

definition parseInt :: "string \<Rightarrow> nat \<Rightarrow> int option" where
  "parseInt string radix = (let
      s0 = dropWhile is_space string;
      sign = (if take 1 s0 = ''-'' then - 1 else 1 :: int);
      s1 = (if take 1 s0 = ''-'' \<or> take 1 s0 = ''+'' then drop 1 s0 else s0);
      stripPrefix = (radix = 0 \<or> radix = 16);
      hex = (stripPrefix \<and> (take 2 s1 = ''0x'' \<or> take 2 s1 = ''0X''));
      R = (if hex then 16 else if radix = 0 then 10 else radix);
      s2 = (if hex then drop 2 s1 else s1);
      z = takeWhile (is_digit R) s2
    in if R < 2 \<or> 36 < R then None
       else if z = [] then None
       else Some (sign * digits_value R z))"

text \<open>\<open>Number.prototype.toString(radix)\<close> on an integer, and \<open>padStart(2, '0')\<close>.\<close>

definition digit_char :: "nat \<Rightarrow> char" where
  "digit_char d = digit_chars ! d"

fun nat_digits :: "nat \<Rightarrow> nat \<Rightarrow> string" where
  "nat_digits R n = (if R < 2 \<or> n < R then [digit_char n]
     else nat_digits R (n div R) @ [digit_char (n mod R)])"

definition toString :: "int \<Rightarrow> nat \<Rightarrow> string" where
  "toString n R = (if n < 0 then CHR ''-'' # nat_digits R (nat (- n)) else nat_digits R (nat n))"

definition padStart2 :: "string \<Rightarrow> string" where
  "padStart2 s = replicate (2 - length s) CHR ''0'' @ s"

text \<open>
  The arithmetic of the colour conversions is carried out on exact rationals.
  \<open>Math.round\<close> rounds a half upwards; \<open>%\<close> takes the sign of the dividend.
\<close>

definition Math_round :: "rat \<Rightarrow> int" where
  "Math_round x = \<lfloor>x + 1 / 2\<rfloor>"

definition js_rem :: "rat \<Rightarrow> rat \<Rightarrow> rat" where
  "js_rem x y = x - y * of_int (if 0 \<le> x / y then \<lfloor>x / y\<rfloor> else \<lceil>x / y\<rceil>)"

definition hsl_channel :: "rat \<Rightarrow> rat \<Rightarrow> rat \<Rightarrow> rat \<Rightarrow> rat" where
  "hsl_channel h s l n = (let
      a = s * min l (1 - l);
      k = js_rem (n + h / 30) 12
    in l - a * max (min (min (k - 3) (9 - k)) 1) (- 1))"

definition hslToHex :: "rat \<Rightarrow> rat \<Rightarrow> rat \<Rightarrow> string" where
  "hslToHex h s l = (let
      s' = s / 100;
      l' = l / 100;
      f = (\<lambda>n. padStart2 (toString (Math_round (255 * hsl_channel h s' l' n)) 16))
    in ''#'' @ f 0 @ f 8 @ f 4)"

record hsl =
  hsl_h :: int
  hsl_s :: int
  hsl_l :: int

text \<open>
  \<open>hexToHsl\<close>. \<open>None\<close> stands for the result whose three fields are \<open>NaN\<close>, which is what the
  source computes when a pair of characters is not a number. The \<open>switch\<close> takes the first
  channel equal to the maximum.
\<close>

definition hue_fraction :: "rat \<Rightarrow> rat \<Rightarrow> rat \<Rightarrow> rat" where
  "hue_fraction r g b = (let
      mx = max (max r g) b;
      mn = min (min r g) b;
      d = mx - mn
    in if mx = mn then 0
       else if mx = r then ((g - b) / d + (if g < b then 6 else 0)) / 6
       else if mx = g then ((b - r) / d + 2) / 6
       else ((r - g) / d + 4) / 6)"

definition hexToHsl :: "string \<Rightarrow> hsl option" where
  "hexToHsl hex =
     (case (parseInt (slice hex 1 3) 16, parseInt (slice hex 3 5) 16, parseInt (slice hex 5 7) 16) of
        (Some ri, Some gi, Some bi) \<Rightarrow>
          (let r = rat_of_int ri / 255; g = rat_of_int gi / 255; b = rat_of_int bi / 255;
               mx = max (max r g) b;
               mn = min (min r g) b;
               l = (mx + mn) / 2;
               d = mx - mn;
               s = (if mx = mn then 0 else if l > 1 / 2 then d / (2 - mx - mn) else d / (mx + mn));
               h = hue_fraction r g b
           in Some \<lparr>hsl_h = Math_round (h * 360), hsl_s = Math_round (s * 100),
                     hsl_l = Math_round (l * 100)\<rparr>)
      | _ \<Rightarrow> None)"

text \<open>The fixed table of presets: key, hue, display name.\<close>

definition presets :: "(string \<times> int \<times> string) list" where
  "presets =
     [(''academic'', 220, ''Academic Blue''), (''forest'', 150, ''Forest Green''),
      (''sunset'', 25, ''Warm Orange''), (''lavender'', 270, ''Lavender''),
      (''rose'', 350, ''Rose''), (''ocean'', 195, ''Ocean Teal''),
      (''gold'', 45, ''Gold''), (''slate'', 215, ''Slate'')]"

text \<open>
  The manager and what it writes on the page: the custom property \<open>--primary-hue\<close>, the
  stored item \<open>themeHue\<close>, and the value of the colour picker when the page has one
  (\<open>None\<close> when it has none). The \<open>active\<close> class of the preset buttons is left out.
\<close>

record ThemeManager =
  currentHue :: int
  isPanelOpen :: bool

record theme_page =
  theme :: ThemeManager
  primary_hue :: "int option"
  themeHue_item :: "string option"
  colorPicker :: "string option"

text \<open>
  The constructor: \<open>parseInt(localStorage.getItem('themeHue')) || 220\<close>. A missing item is
  \<open>null\<close>, which \<open>parseInt\<close> reads as the string \<open>null\<close>; \<open>NaN\<close> and \<open>0\<close> are falsy.
\<close>

definition ThemeManager_constructor :: "string option \<Rightarrow> ThemeManager" where
  "ThemeManager_constructor item =
     \<lparr>currentHue = (case parseInt (case item of None \<Rightarrow> ''null'' | Some s \<Rightarrow> s) 0 of
                      None \<Rightarrow> 220
                    | Some n \<Rightarrow> if n = 0 then 220 else n),
      isPanelOpen = False\<rparr>"

definition applyTheme :: "int \<Rightarrow> theme_page \<Rightarrow> theme_page" where
  "applyTheme hue p = p\<lparr>
     theme := (theme p)\<lparr>currentHue := hue\<rparr>,
     primary_hue := Some hue,
     themeHue_item := Some (toString hue 10),
     colorPicker := map_option (\<lambda>_. hslToHex (rat_of_int hue) 70 50) (colorPicker p)\<rparr>"

definition setPreset :: "string \<Rightarrow> theme_page \<Rightarrow> theme_page" where
  "setPreset presetName p = (case map_of presets presetName of
      None \<Rightarrow> p
    | Some (hue, name) \<Rightarrow> applyTheme hue p)"


text \<open>
  How far a value that is to be rounded lies from the nearest tie \<open>n + 1/2\<close>.
\<close>

definition tie_distance :: "rat \<Rightarrow> rat" where
  "tie_distance x = \<bar>x - (rat_of_int \<lfloor>x\<rfloor> + 1 / 2)\<bar>"

section \<open>The blog page: rendering and event handlers\<close>

text \<open>
  What \<open>render\<close> writes and the handlers read back: the cards of the grid (the empty list
  is the "no posts found" message) and the buttons of \<open>#blogPagination\<close>, each with its
  \<open>disabled\<close> attribute and its \<open>data-page\<close>. \<open>listening\<close> says that \<open>setupEventListeners\<close> has
  run, which it does only after a successful load. The page is taken to have the four
  containers and the search box.
\<close>

record pbutton =
  disabled :: bool
  data_page :: int

record blog_view =
  manager :: BlogManager
  grid :: "post list"
  pagination :: "pbutton list"
  listening :: bool

definition renderPagination :: "BlogManager \<Rightarrow> string option \<Rightarrow> js_error + pbutton list" where
  "renderPagination b i18n_lang = (case getTotalPages b i18n_lang of
      Inl e \<Rightarrow> Inl e
    | Inr totalPages \<Rightarrow>
        if totalPages \<le> 1 then Inr []
        else Inr ([\<lparr>disabled = (currentPage b = 1), data_page = currentPage b - 1\<rparr>]
                  @ map (\<lambda>i. \<lparr>disabled = False, data_page = i\<rparr>) [1..totalPages]
                  @ [\<lparr>disabled = (currentPage b = totalPages), data_page = currentPage b + 1\<rparr>]))"

text \<open>
  \<open>render\<close>: \<open>renderPosts\<close> first, then (the category list and the tag cloud, which no
  handler reads back, and) \<open>renderPagination\<close>. An exception leaves what was written
  before it and is returned with the view.
\<close>

definition render :: "string option \<Rightarrow> blog_view \<Rightarrow> blog_view \<times> js_error option" where
  "render i18n_lang v = (case getPaginatedPosts (manager v) i18n_lang of
      Inl e \<Rightarrow> (v, Some e)
    | Inr ps \<Rightarrow> (case renderPagination (manager v) i18n_lang of
        Inl e \<Rightarrow> (v\<lparr>grid := ps\<rparr>, Some e)
      | Inr buttons \<Rightarrow> (v\<lparr>grid := ps, pagination := buttons\<rparr>, None)))"

text \<open>
  The four handlers of \<open>setupEventListeners\<close>, each ending in \<open>render\<close>. The tag handler
  runs only for an element whose \<open>data-tag\<close> is not empty. The pagination handler takes the
  \<open>i\<close>-th button of the rendered control, does nothing when there is none or it is
  disabled, and reads back with \<open>parseInt\<close> the integer that \<open>renderPagination\<close> wrote into
  \<open>data-page\<close>.
\<close>

definition onSearchInput :: "string \<Rightarrow> string option \<Rightarrow> blog_view \<Rightarrow> blog_view \<times> js_error option" where
  "onSearchInput val i18n_lang v =
     render i18n_lang (v\<lparr>manager := (manager v)\<lparr>searchQuery := val, currentPage := 1\<rparr>\<rparr>)"

definition onCategoryClick :: "string \<Rightarrow> string option \<Rightarrow> blog_view \<Rightarrow> blog_view \<times> js_error option" where
  "onCategoryClick cat i18n_lang v =
     render i18n_lang (v\<lparr>manager := (manager v)\<lparr>currentCategory := cat, currentTag := None,
                                                 currentPage := 1\<rparr>\<rparr>)"

definition onTagClick :: "string \<Rightarrow> string option \<Rightarrow> blog_view \<Rightarrow> blog_view \<times> js_error option" where
  "onTagClick tag i18n_lang v =
     (if tag \<noteq> '''' then
        render i18n_lang (v\<lparr>manager := (manager v)\<lparr>
          currentTag := (if currentTag (manager v) = Some tag then None else Some tag),
          currentPage := 1\<rparr>\<rparr>)
      else (v, None))"

definition onPaginationClick :: "nat \<Rightarrow> string option \<Rightarrow> blog_view \<Rightarrow> blog_view \<times> js_error option" where
  "onPaginationClick i i18n_lang v =
     (if i < length (pagination v) \<and> \<not> disabled (pagination v ! i) then
        render i18n_lang (v\<lparr>manager := (manager v)\<lparr>currentPage := data_page (pagination v ! i)\<rparr>\<rparr>)
      else (v, None))"

text \<open>
  The blog page, on which \<open>window.i18n\<close> exists. \<open>loadBlog\<close> is \<open>BlogManager.init\<close> on the
  page: the first render, the listeners and the subscription to language changes, or
  nothing but the empty grid when the load fails. The blog is the only subscriber of the
  page.
\<close>

definition blogCallback :: "blog_view callback" where
  "blogCallback lang v = render (Some lang) v"

definition loadBlog :: "post list option \<Rightarrow> blog_view browser \<Rightarrow> blog_view browser" where
  "loadBlog data w = (case data of
      None \<Rightarrow> w\<lparr>view := (view w)\<lparr>grid := []\<rparr>\<rparr>
    | Some ps \<Rightarrow>
        (case render (Some (currentLang (i18n w))) ((view w)\<lparr>manager := BlogManager_init data\<rparr>) of
           (v, Some e) \<Rightarrow> w\<lparr>view := v\<lparr>grid := []\<rparr>\<rparr>
         | (v, None) \<Rightarrow> subscribe blogCallback (w\<lparr>view := v\<lparr>listening := True\<rparr>\<rparr>)))"

definition blogPage :: "string option \<Rightarrow> post list option \<Rightarrow> blog_view browser" where
  "blogPage stored data = loadBlog data
     \<lparr>i18n = I18n_constructor stored, stored_language = stored, elements = [],
      document_lang = ''en'', lang_buttons = [(Some ''en'', False), (Some ''pt'', False)],
      view = \<lparr>manager = BlogManager_constructor, grid = [], pagination = [], listening = False\<rparr>\<rparr>"

text \<open>
  What the user does: a (debounced) change of the search box, a click on a category
  link, on a tag, on the \<open>i\<close>-th pagination button, on a language button. A handler's
  exception is reported by the browser and the page goes on.
\<close>

datatype event =
    SearchInput string
  | CategoryClick string
  | TagClick string
  | PaginationClick nat
  | LangClick jsval

definition handle :: "(string option \<Rightarrow> blog_view \<Rightarrow> blog_view \<times> js_error option)
    \<Rightarrow> blog_view browser \<Rightarrow> blog_view browser" where
  "handle handler w = (if listening (view w)
     then w\<lparr>view := fst (handler (Some (currentLang (i18n w))) (view w))\<rparr> else w)"

fun step :: "event \<Rightarrow> blog_view browser \<Rightarrow> blog_view browser" where
  "step (SearchInput val) w = handle (onSearchInput val) w"
| "step (CategoryClick cat) w = handle (onCategoryClick cat) w"
| "step (TagClick tag) w = handle (onTagClick tag) w"
| "step (PaginationClick i) w = handle (onPaginationClick i) w"
| "step (LangClick lang) w = fst (setLanguage lang w)"

definition run :: "event list \<Rightarrow> blog_view browser \<Rightarrow> blog_view browser" where
  "run es w = fold step es w"

text \<open>The page number and the number of pages of a state of the page.\<close>

definition pageNumber :: "blog_view browser \<Rightarrow> int" where
  "pageNumber w = currentPage (manager (view w))"

definition totalPages :: "blog_view browser \<Rightarrow> js_error + int" where
  "totalPages w = getTotalPages (manager (view w)) (Some (currentLang (i18n w)))"

text \<open>
  The invariant of the page. A page number is in range when it is at least \<open>1\<close> and at most
  the number of pages, or \<open>1\<close> when there is no page. A view is consistent when, whenever
  the number of pages can be computed, the page number is in range and the pagination
  control on the page is the one \<open>renderPagination\<close> writes for the current state. A
  sequence of events is admissible when each language click in it comes while the search
  query is empty.
\<close>

definition inRange :: "int \<Rightarrow> int \<Rightarrow> bool" where
  "inRange page tot = (1 \<le> page \<and> page \<le> max 1 tot)"

definition consistent :: "string option \<Rightarrow> blog_view \<Rightarrow> bool" where
  "consistent l v = (\<forall>tot. getTotalPages (manager v) l = Inr tot \<longrightarrow>
     inRange (currentPage (manager v)) tot \<and> renderPagination (manager v) l = Inr (pagination v))"

fun admissible :: "blog_view browser \<Rightarrow> event list \<Rightarrow> bool" where
  "admissible w [] = True"
| "admissible w (e # es) =
     ((case e of LangClick lang \<Rightarrow> searchQuery (manager (view w)) = '''' | _ \<Rightarrow> True)
      \<and> admissible (step e w) es)"

definition invariant :: "blog_view browser \<Rightarrow> bool" where
  "invariant w = (if listening (view w)
     then observers (i18n w) = [blogCallback] \<and> consistent (Some (currentLang (i18n w))) (view w)
     else observers (i18n w) = [] \<and> currentPage (manager (view w)) = 1)"

section \<open>A key as the specification reads it\<close>

text \<open>
  The specification resolves a key as a dot-separated path into the nested table of the
  current language. \<open>lookupPath\<close> follows a path through the own entries of nested objects,
  \<open>None\<close> when a segment is missing; \<open>resolve\<close> starts it at the table, with the language
  code as first segment. \<open>inheritedName\<close> holds of the names that every object answers to
  without having an entry for them.
\<close>

fun lookupPath :: "jsval \<Rightarrow> string list \<Rightarrow> jsval option" where
  "lookupPath v [] = Some v"
| "lookupPath (Obj kvs) (k # ks) = (case map_of kvs k of
      None \<Rightarrow> None
    | Some v \<Rightarrow> lookupPath v ks)"
| "lookupPath v (k # ks) = None"

definition resolve :: "'w I18n \<Rightarrow> string \<Rightarrow> jsval option" where
  "resolve i key = lookupPath (Obj (translationTable i)) (currentLang i # split_dot key)"

definition inheritedName :: "string \<Rightarrow> bool" where
  "inheritedName k = (k = ''__proto__'' \<or> k \<in> set objectPrototypeMembers)"

section \<open>Example data\<close>

text \<open>
  Concrete inputs, used to run the definitions: eight posts, the third of them
  unpublished, seven of them in the category \<open>econ\<close>, all tagged \<open>x\<close> and with their
  identifier; a view of them; a translation table; and a page of the language module
  with two subscribers that log their calls.
\<close>

definition example_post :: "string \<Rightarrow> string \<Rightarrow> string \<Rightarrow> string \<Rightarrow> int \<Rightarrow> bool \<Rightarrow> post" where
  "example_post i cat t_en t_pt d pub =
     \<lparr>post_id = i, title = [(''en'', t_en), (''pt'', t_pt)],
      excerpt = [(''en'', ''e''), (''pt'', ''p'')],
      category = cat, tags = [''x'', i], date = d, published = pub\<rparr>"

definition post_a :: post where "post_a = example_post ''a'' ''econ'' ''Hi'' ''Oi'' 100 True"
definition post_b :: post where "post_b = example_post ''b'' ''econ'' ''hI'' ''Ola'' 800 True"
definition post_c :: post where "post_c = example_post ''c'' ''econ'' ''Hi'' ''Oi'' 300 False"
definition post_d :: post where "post_d = example_post ''d'' ''econ'' ''HI'' ''Ola'' 400 True"
definition post_e :: post where "post_e = example_post ''e'' ''econ'' ''hi'' ''Ola'' 500 True"
definition post_f :: post where "post_f = example_post ''f'' ''econ'' ''Hi'' ''Ola'' 200 True"
definition post_g :: post where "post_g = example_post ''g'' ''econ'' ''Hi'' ''Ola'' 700 True"
definition post_h :: post where "post_h = example_post ''h'' ''misc'' ''Hi'' ''Ola'' 600 True"

definition example_posts :: "post list" where
  "example_posts = [post_a, post_b, post_c, post_d, post_e, post_f, post_g, post_h]"

definition example_view :: blog_view where
  "example_view =
     \<lparr>manager = (BlogManager_init (Some example_posts))\<lparr>currentTag := Some ''x'', currentPage := 2\<rparr>,
      grid = [], pagination = [], listening = True\<rparr>"

definition example_table :: "(string \<times> jsval) list" where
  "example_table =
     [(''en'', Obj [(''nav'', Obj [(''home'', Str ''Home''), (''blank'', Str '''')]),
                    (''title'', Str ''Welcome'')]),
      (''pt'', Obj [(''nav'', Obj [(''home'', Str ''Inicio'')]), (''title'', Str ''Bem-vindo'')])]"

definition logger :: "string \<Rightarrow> string list callback" where
  "logger name lang entries = (entries @ [name @ '':'' @ lang], None)"

definition example_browser :: "string list browser" where
  "example_browser =
     \<lparr>i18n = \<lparr>currentLang = ''en'', translationTable = example_table,
               observers = [logger ''blog'', logger ''research'']\<rparr>,
      stored_language = Some ''en'',
      elements = [\<lparr>data_i18n = Some ''nav.home'', data_i18n_title = None, text_input = False,
                    textContent = Str ''Home'', placeholder = Undefined, title_attr = Undefined\<rparr>],
      document_lang = ''en'',
      lang_buttons = [(Some ''en'', True), (Some ''pt'', False)],
      view = []\<rparr>"

text \<open>
  A page whose texts are out of date (a text, a title, the placeholder of a text input and
  an element without a key), and the same page with a first subscriber that raises.
\<close>

definition failing :: "string \<Rightarrow> string list callback" where
  "failing name lang entries = (entries @ [name @ '':'' @ lang], Some TypeError)"

definition stale_browser :: "string list browser" where
  "stale_browser =
     \<lparr>i18n = \<lparr>currentLang = ''en'', translationTable = example_table,
               observers = [logger ''blog'', logger ''research'']\<rparr>,
      stored_language = None,
      elements = [\<lparr>data_i18n = Some ''nav.home'', data_i18n_title = Some ''title'', text_input = False,
                    textContent = Str ''old'', placeholder = Undefined, title_attr = Str ''old''\<rparr>,
                  \<lparr>data_i18n = Some ''title'', data_i18n_title = None, text_input = True,
                    textContent = Str '''', placeholder = Str ''old'', title_attr = Undefined\<rparr>,
                  \<lparr>data_i18n = None, data_i18n_title = None, text_input = False,
                    textContent = Str ''plain'', placeholder = Undefined, title_attr = Undefined\<rparr>],
      document_lang = '''',
      lang_buttons = [(Some ''en'', False), (Some ''pt'', True), (None, True)],
      view = []\<rparr>"

definition failing_browser :: "string list browser" where
  "failing_browser = stale_browser\<lparr>i18n := (i18n stale_browser)\<lparr>
      observers := [failing ''blog'', logger ''research'']\<rparr>\<rparr>"

section \<open>Filtering keeps published posts only\<close>

lemma set_filterE: "filterE f xs = Inr ys \<Longrightarrow> set ys \<subseteq> set xs"
  by (induction xs arbitrary: ys) (auto split: sum.splits if_splits)

lemma set_sortByDate: "set (sortByDate ps) = set ps"
  by (simp add: sortByDate_def)

lemma set_byCategory: "set (byCategory b ps) \<subseteq> set ps"
  by (auto simp: byCategory_def)

lemma set_byTag: "set (byTag b ps) \<subseteq> set ps"
  by (auto simp: byTag_def split: option.splits)

lemma set_bySearch: "bySearch b l ps = Inr ys \<Longrightarrow> set ys \<subseteq> set ps"
  by (auto simp: bySearch_def split: if_splits dest: set_filterE)

lemma getFilteredPosts_subset:
  assumes "getFilteredPosts b l = Inr fs"
  shows "set fs \<subseteq> set (posts b)"
proof -
  from assms obtain ys where ys: "bySearch b l (byTag b (byCategory b (posts b))) = Inr ys"
    and fs: "fs = sortByDate ys"
    by (auto simp: getFilteredPosts_def split: sum.splits)
  have "set ys \<subseteq> set (byTag b (byCategory b (posts b)))"
    using ys by (rule set_bySearch)
  also have "\<dots> \<subseteq> set (byCategory b (posts b))" by (rule set_byTag)
  also have "\<dots> \<subseteq> set (posts b)" by (rule set_byCategory)
  finally show ?thesis by (simp add: fs set_sortByDate)
qed

text \<open>
  C1. Whatever the loaded document and whatever the category filter, the tag filter, the
  search query and the page, every post of the list that \<open>getFilteredPosts\<close> returns has
  its \<open>published\<close> flag set.
\<close>

theorem getFilteredPosts_only_published:
  assumes "getFilteredPosts ((BlogManager_init d)\<lparr>currentPage := n, currentCategory := c,
             currentTag := t, searchQuery := q\<rparr>) l = Inr fs"
    and "p \<in> set fs"
  shows "published p"
proof -
  let ?b = "(BlogManager_init d)\<lparr>currentPage := n, currentCategory := c, currentTag := t, searchQuery := q\<rparr>"
  have "set fs \<subseteq> set (posts ?b)" using assms(1) by (rule getFilteredPosts_subset)
  with assms(2) have "p \<in> set (posts (BlogManager_init d))" by auto
  then show ?thesis by (cases d) (auto simp: BlogManager_init_def BlogManager_constructor_def)
qed

text \<open>
  On the example posts, with all three filters active, the unpublished post \<open>c\<close> matches the
  filters and is not in the result.
\<close>

theorem getFilteredPosts_only_published_witness:
  "getFilteredPosts ((BlogManager_init (Some example_posts))\<lparr>currentPage := 1,
       currentCategory := ''econ'', currentTag := Some ''x'', searchQuery := ''HI''\<rparr>) (Some ''en'')
     = Inr [post_b, post_g, post_e, post_d, post_f, post_a]
   \<and> published post_d"
proof -
  have run: "getFilteredPosts ((BlogManager_init (Some example_posts))\<lparr>currentPage := 1,
       currentCategory := ''econ'', currentTag := Some ''x'', searchQuery := ''HI''\<rparr>) (Some ''en'')
     = Inr [post_b, post_g, post_e, post_d, post_f, post_a]"
    by code_simp
  have "published post_d"
    by (rule getFilteredPosts_only_published [OF run]) simp
  with run show ?thesis by simp
qed

text \<open>
  \<open>getFilteredPosts\<close> returns a list unless the search reads a title or an excerpt that has
  no entry for the language.
\<close>

lemma filterE_total:
  assumes "\<And>x. x \<in> set xs \<Longrightarrow> \<exists>b. f x = Inr b"
  shows "filterE f xs = Inr (filter (\<lambda>x. f x = Inr True) xs)"
  using assms
proof (induction xs)
  case Nil
  show ?case by simp
next
  case (Cons x xs)
  then obtain b where "f x = Inr b" by auto
  with Cons show ?case by auto
qed

lemma getFilteredPosts_returns:
  assumes "searchQuery b = '''' \<or> (\<forall>p \<in> set (posts b).
      map_of (title p) (getCurrentLang l) \<noteq> None \<and> map_of (excerpt p) (getCurrentLang l) \<noteq> None)"
  shows "\<exists>fs. getFilteredPosts b l = Inr fs"
proof (cases "searchQuery b = ''''")
  case True
  then show ?thesis by (simp add: getFilteredPosts_def bySearch_def)
next
  case False
  let ?ps = "byTag b (byCategory b (posts b))"
  let ?f = "matchesQuery (toLowerCase (searchQuery b)) (getCurrentLang l)"
  have sub: "set ?ps \<subseteq> set (posts b)"
    using set_byTag [of b "byCategory b (posts b)"] set_byCategory [of b "posts b"] by blast
  have "\<exists>r. ?f p = Inr r" if "p \<in> set ?ps" for p
  proof -
    from that sub have "p \<in> set (posts b)" by blast
    with assms False obtain t e where "map_of (title p) (getCurrentLang l) = Some t"
      and "map_of (excerpt p) (getCurrentLang l) = Some e"
      by auto
    then show ?thesis by (simp add: matchesQuery_def)
  qed
  then have "filterE ?f ?ps = Inr (filter (\<lambda>p. ?f p = Inr True) ?ps)"
    by (rule filterE_total)
  with False show ?thesis by (simp add: getFilteredPosts_def bySearch_def)
qed

section \<open>Pagination\<close>

lemma length_slice_page: "length (slice xs s (s + 6)) \<le> 6"
proof -
  define len where "len = int (length xs)"
  define k where "k = (if s < 0 then max (len + s) 0 else min s len)"
  define final where "final = (if s + 6 < 0 then max (len + (s + 6)) 0 else min (s + 6) len)"
  have "0 \<le> len" by (simp add: len_def)
  then have "final - k \<le> 6" unfolding k_def final_def by (auto simp: max_def min_def)
  then have "nat (final - k) \<le> 6" by simp
  moreover have "slice xs s (s + 6) = take (nat (final - k)) (drop (nat k) xs)"
    by (simp add: slice_def Let_def len_def k_def final_def)
  ultimately show ?thesis by simp
qed

lemma slice_page_nonneg:
  assumes "0 \<le> s"
  shows "slice xs s (s + 6) = take 6 (drop (nat s) xs)"
proof (cases "s < int (length xs)")
  case True
  show ?thesis
  proof (cases "s + 6 \<le> int (length xs)")
    case True
    with assms \<open>s < int (length xs)\<close> show ?thesis
      by (simp add: slice_def Let_def min_def)
  next
    case False
    with assms \<open>s < int (length xs)\<close> have "length (drop (nat s) xs) \<le> 6" by simp
    with assms False \<open>s < int (length xs)\<close> show ?thesis
      by (simp add: slice_def Let_def min_def)
  qed
next
  case False
  with assms show ?thesis by (simp add: slice_def Let_def min_def)
qed

lemma concat_pages_take:
  "concat (map (\<lambda>p. take 6 (drop (nat ((p - 1) * 6)) xs)) [1..int n]) = take (6 * n) xs"
proof (induction n)
  case 0
  show ?case by simp
next
  case (Suc n)
  have "[1..int (Suc n)] = [1..int n] @ [int n + 1]"
    using upto_rec2 [of 1 "int (Suc n)"] by simp
  moreover have "nat (int n * 6) = 6 * n" by (simp add: nat_mult_distrib)
  ultimately show ?case
    using Suc.IH by (simp add: take_add [symmetric] add.commute)
qed

lemma totalPages_covers:
  fixes len :: nat
  defines "tp \<equiv> \<lceil>rat_of_nat len / rat_of_int 6\<rceil>"
  shows "0 \<le> tp" and "len \<le> 6 * nat tp"
proof -
  have "(0::rat) \<le> rat_of_nat len / rat_of_int 6" by simp
  then show nonneg: "0 \<le> tp" unfolding tp_def by (simp only: zero_le_ceiling)
  have "rat_of_nat len / rat_of_int 6 \<le> of_int tp" unfolding tp_def by (rule le_of_int_ceiling)
  then have "rat_of_nat len \<le> 6 * of_int tp" by simp
  then have "rat_of_int (int len) \<le> rat_of_int (6 * tp)" by simp
  then have "int len \<le> 6 * tp" by (simp only: of_int_le_iff)
  with nonneg show "len \<le> 6 * nat tp" by linarith
qed

lemma ceiling_sixth: "\<lceil>rat_of_nat n / 6\<rceil> = (int n + 5) div 6"
proof -
  have "\<lceil>rat_of_int (int n) / rat_of_int 6\<rceil> = - (- int n div 6)"
    by (rule ceiling_divide_eq_div)
  then show ?thesis by simp
qed

lemma getTotalPages_div [code]:
  "getTotalPages b i18n_lang = (case getFilteredPosts b i18n_lang of
      Inl e \<Rightarrow> Inl e
    | Inr filtered \<Rightarrow> Inr ((int (length filtered) + 5) div 6))"
  by (simp add: getTotalPages_def postsPerPage_def ceiling_sixth split: sum.splits)

lemma getFilteredPosts_currentPage [simp]:
  "getFilteredPosts (b\<lparr>currentPage := p\<rparr>) l = getFilteredPosts b l"
proof -
  have "byCategory (b\<lparr>currentPage := p\<rparr>) = byCategory b"
    by (rule ext) (auto simp: byCategory_def)
  moreover have "byTag (b\<lparr>currentPage := p\<rparr>) = byTag b"
    by (rule ext) (auto simp: byTag_def split: option.splits)
  moreover have "bySearch (b\<lparr>currentPage := p\<rparr>) = bySearch b"
    by (rule ext)+ (auto simp: bySearch_def)
  ultimately show ?thesis by (simp add: getFilteredPosts_def)
qed

lemma getTotalPages_currentPage [simp]:
  "getTotalPages (b\<lparr>currentPage := p\<rparr>) l = getTotalPages b l"
  by (simp add: getTotalPages_def)

lemma getTotalPages_Inr:
  "getTotalPages b l = Inr tot \<longleftrightarrow>
     (\<exists>fs. getFilteredPosts b l = Inr fs \<and> tot = \<lceil>rat_of_nat (length fs) / 6\<rceil>)"
  by (auto simp: getTotalPages_def postsPerPage_def split: sum.splits)

lemma concat_slices:
  assumes "tp = \<lceil>rat_of_nat (length xs) / rat_of_int 6\<rceil>"
  shows "concat (map (\<lambda>p. slice xs ((p - 1) * 6) ((p - 1) * 6 + 6)) [1..tp]) = xs"
proof -
  have tp: "0 \<le> tp" "length xs \<le> 6 * nat tp"
    using totalPages_covers [of "length xs"] by (simp_all add: assms)
  have "map (\<lambda>p. slice xs ((p - 1) * 6) ((p - 1) * 6 + 6)) [1..tp]
      = map (\<lambda>p. take 6 (drop (nat ((p - 1) * 6)) xs)) [1..tp]"
  proof (rule map_cong [OF refl])
    fix p assume "p \<in> set [1..tp]"
    then have "0 \<le> (p - 1) * 6" by simp
    then show "slice xs ((p - 1) * 6) ((p - 1) * 6 + 6) = take 6 (drop (nat ((p - 1) * 6)) xs)"
      by (rule slice_page_nonneg)
  qed
  also have "concat \<dots> = take (6 * nat tp) xs"
    using concat_pages_take [of xs "nat tp"] tp(1) by simp
  also have "\<dots> = xs" using tp(2) by simp
  finally show ?thesis .
qed

text \<open>
  C2. Whenever \<open>getFilteredPosts\<close> returns a list, \<open>getPaginatedPosts\<close> returns at most six
  posts, at every page number, and the pages \<open>1, \<dots>, getTotalPages()\<close>, one after the other,
  are that list.
\<close>

theorem pagination_pages:
  assumes "getFilteredPosts b l = Inr fs"
  shows "(\<exists>ps. getPaginatedPosts b l = Inr ps \<and> length ps \<le> 6) \<and>
    (\<exists>tp chunks. getTotalPages b l = Inr tp \<and>
       map (\<lambda>p. getPaginatedPosts (b\<lparr>currentPage := p\<rparr>) l) [1..tp] = map Inr chunks \<and>
       concat chunks = fs)"
proof
  show "\<exists>ps. getPaginatedPosts b l = Inr ps \<and> length ps \<le> 6"
    using assms length_slice_page [of fs "(currentPage b - 1) * 6"]
    by (simp add: getPaginatedPosts_def postsPerPage_def)
next
  define tp where "tp = \<lceil>rat_of_nat (length fs) / rat_of_int 6\<rceil>"
  define chunks where "chunks = map (\<lambda>p. slice fs ((p - 1) * 6) ((p - 1) * 6 + 6)) [1..tp]"
  have "getTotalPages b l = Inr tp"
    using assms by (simp add: getTotalPages_def postsPerPage_def tp_def)
  moreover have "map (\<lambda>p. getPaginatedPosts (b\<lparr>currentPage := p\<rparr>) l) [1..tp] = map Inr chunks"
    using assms by (simp add: getPaginatedPosts_def postsPerPage_def chunks_def)
  moreover have "concat chunks = fs"
    unfolding chunks_def using tp_def by (rule concat_slices)
  ultimately show "\<exists>tp chunks. getTotalPages b l = Inr tp \<and>
       map (\<lambda>p. getPaginatedPosts (b\<lparr>currentPage := p\<rparr>) l) [1..tp] = map Inr chunks \<and>
       concat chunks = fs"
    by blast
qed

theorem pagination_pages_witness:
  "getFilteredPosts (BlogManager_init (Some example_posts)) (Some ''en'')
     = Inr [post_b, post_g, post_h, post_e, post_d, post_f, post_a]
   \<and> (\<exists>ps. getPaginatedPosts (BlogManager_init (Some example_posts)) (Some ''en'') = Inr ps
         \<and> length ps \<le> 6)
   \<and> (\<exists>tp chunks. getTotalPages (BlogManager_init (Some example_posts)) (Some ''en'') = Inr tp \<and>
         map (\<lambda>p. getPaginatedPosts ((BlogManager_init (Some example_posts))\<lparr>currentPage := p\<rparr>)
                (Some ''en'')) [1..tp] = map Inr chunks \<and>
         concat chunks = [post_b, post_g, post_h, post_e, post_d, post_f, post_a])"
proof -
  have run: "getFilteredPosts (BlogManager_init (Some example_posts)) (Some ''en'')
     = Inr [post_b, post_g, post_h, post_e, post_d, post_f, post_a]"
    by code_simp
  from pagination_pages [OF run] run show ?thesis by (intro conjI) blast+
qed

text \<open>When \<open>getFilteredPosts\<close> raises, so do the other two.\<close>

lemma getPaginatedPosts_raises:
  "getFilteredPosts b l = Inl e \<Longrightarrow> getPaginatedPosts b l = Inl e \<and> getTotalPages b l = Inl e"
  by (simp add: getPaginatedPosts_def getTotalPages_def)

section \<open>The filter handlers\<close>

text \<open>\<open>render\<close> writes to the page only.\<close>

lemma render_manager [simp]: "manager (fst (render l v)) = manager v"
  by (simp add: render_def split: sum.splits)

lemma render_listening [simp]: "listening (fst (render l v)) = listening v"
  by (simp add: render_def split: sum.splits)

lemma byTag_byCategory:
  assumes "currentCategory b = c" "c \<noteq> ''all''" "currentTag b = Some t" "t \<noteq> ''''"
  shows "byTag b (byCategory b ps) = filter (\<lambda>p. category p = c \<and> t \<in> set (tags p)) ps"
  using assms by (auto simp: byTag_def byCategory_def intro: filter_cong)

text \<open>
  C3, as the code has it. Each of the three handlers sets the page number to \<open>1\<close>. The
  search handler leaves category and tag as they are; the category handler sets the
  category and clears the tag; the tag handler leaves the category as it is and toggles
  the tag. So a category followed by a tag leaves both active, and the posts listed are
  those that are in the category and carry the tag.
\<close>

theorem handlers_reset_page:
  "(let b = manager (fst (onSearchInput q l v)) in
      currentPage b = 1 \<and> searchQuery b = q
      \<and> currentCategory b = currentCategory (manager v) \<and> currentTag b = currentTag (manager v))
   \<and> (let b = manager (fst (onCategoryClick c l v)) in
      currentPage b = 1 \<and> currentCategory b = c \<and> currentTag b = None
      \<and> searchQuery b = searchQuery (manager v))
   \<and> (t \<noteq> '''' \<longrightarrow> (let b = manager (fst (onTagClick t l v)) in
      currentPage b = 1 \<and> currentCategory b = currentCategory (manager v)
      \<and> currentTag b = (if currentTag (manager v) = Some t then None else Some t)
      \<and> searchQuery b = searchQuery (manager v)))
   \<and> (t \<noteq> '''' \<and> c \<noteq> ''all'' \<and> searchQuery (manager v) = '''' \<longrightarrow>
       (let b = manager (fst (onTagClick t l (fst (onCategoryClick c l v)))) in
          currentCategory b = c \<and> currentTag b = Some t
          \<and> getFilteredPosts b l
              = Inr (sortByDate (filter (\<lambda>p. category p = c \<and> t \<in> set (tags p)) (posts (manager v))))))"
proof (intro conjI impI)
  show "let b = manager (fst (onSearchInput q l v)) in
      currentPage b = 1 \<and> searchQuery b = q
      \<and> currentCategory b = currentCategory (manager v) \<and> currentTag b = currentTag (manager v)"
    by (simp add: onSearchInput_def)
  show "let b = manager (fst (onCategoryClick c l v)) in
      currentPage b = 1 \<and> currentCategory b = c \<and> currentTag b = None
      \<and> searchQuery b = searchQuery (manager v)"
    by (simp add: onCategoryClick_def)
next
  assume "t \<noteq> ''''"
  then show "let b = manager (fst (onTagClick t l v)) in
      currentPage b = 1 \<and> currentCategory b = currentCategory (manager v)
      \<and> currentTag b = (if currentTag (manager v) = Some t then None else Some t)
      \<and> searchQuery b = searchQuery (manager v)"
    by (simp add: onTagClick_def)
next
  assume a: "t \<noteq> '''' \<and> c \<noteq> ''all'' \<and> searchQuery (manager v) = ''''"
  define b where "b = manager (fst (onTagClick t l (fst (onCategoryClick c l v))))"
  from a have b: "currentCategory b = c" "currentTag b = Some t" "searchQuery b = ''''"
    "posts b = posts (manager v)"
    by (simp_all add: b_def onTagClick_def onCategoryClick_def)
  with a have "byTag b (byCategory b (posts b))
      = filter (\<lambda>p. category p = c \<and> t \<in> set (tags p)) (posts (manager v))"
    using byTag_byCategory [of b c t "posts b"] by simp
  with b have "getFilteredPosts b l
      = Inr (sortByDate (filter (\<lambda>p. category p = c \<and> t \<in> set (tags p)) (posts (manager v))))"
    by (simp add: getFilteredPosts_def bySearch_def)
  with b show "let b = manager (fst (onTagClick t l (fst (onCategoryClick c l v)))) in
          currentCategory b = c \<and> currentTag b = Some t
          \<and> getFilteredPosts b l
              = Inr (sortByDate (filter (\<lambda>p. category p = c \<and> t \<in> set (tags p)) (posts (manager v))))"
    by (simp add: b_def)
qed

theorem handlers_reset_page_witness:
  "currentPage (manager (fst (onSearchInput ''hi'' (Some ''en'') example_view))) = 1
   \<and> currentTag (manager (fst (onSearchInput ''hi'' (Some ''en'') example_view))) = Some ''x''
   \<and> currentPage (manager (fst (onTagClick ''b'' (Some ''en'') example_view))) = 1
   \<and> currentTag (manager (fst (onTagClick ''b'' (Some ''en'') example_view))) = Some ''b''
   \<and> getFilteredPosts
        (manager (fst (onTagClick ''b'' (Some ''en'')
           (fst (onCategoryClick ''econ'' (Some ''en'') example_view)))))
        (Some ''en'')
      = Inr [post_b]"
proof -
  have t: "''b'' \<noteq> ''''" and c: "''econ'' \<noteq> ''all''"
    and q: "searchQuery (manager example_view) = ''''"
    by (simp_all add: example_view_def BlogManager_init_def BlogManager_constructor_def)
  have f: "sortByDate (filter (\<lambda>p. category p = ''econ'' \<and> ''b'' \<in> set (tags p))
        (posts (manager example_view))) = [post_b]"
    by code_simp
  have cur: "currentTag (manager example_view) = Some ''x''"
    by (simp add: example_view_def)
  from handlers_reset_page [of "''hi''" "Some ''en''" example_view "''econ''" "''b''"] t c q f cur
  show ?thesis by (simp add: Let_def)
qed

text \<open>
  C3, as the specification words it, has a category selection leave the selected tag in
  force. The category handler assigns \<open>null\<close> to \<open>currentTag\<close>: on a view whose tag is \<open>x\<close>, a
  click on a category leaves no tag selected.
\<close>

theorem category_click_clears_tag:
  "currentTag (manager example_view) = Some ''x''
   \<and> currentTag (manager (fst (onCategoryClick ''econ'' (Some ''en'') example_view))) = None"
  by (simp add: example_view_def onCategoryClick_def)

section \<open>The page number\<close>

lemma render_pagination:
  assumes "getTotalPages (manager v) l = Inr tot"
  shows "renderPagination (manager v) l = Inr (pagination (fst (render l v)))"
    and "snd (render l v) = None"
proof -
  from assms obtain fs where fs: "getFilteredPosts (manager v) l = Inr fs"
    by (auto simp: getTotalPages_Inr)
  then obtain ps where ps: "getPaginatedPosts (manager v) l = Inr ps"
    by (auto simp: getPaginatedPosts_def Let_def)
  from assms obtain bs where bs: "renderPagination (manager v) l = Inr bs"
    by (cases "tot \<le> 1") (auto simp: renderPagination_def)
  from ps bs show "renderPagination (manager v) l = Inr (pagination (fst (render l v)))"
    and "snd (render l v) = None"
    by (simp_all add: render_def)
qed

lemma render_consistent:
  assumes "\<And>tot. getTotalPages (manager v) l = Inr tot \<Longrightarrow> inRange (currentPage (manager v)) tot"
  shows "consistent l (fst (render l v))"
  unfolding consistent_def
proof (intro allI impI)
  fix tot
  assume "getTotalPages (manager (fst (render l v))) l = Inr tot"
  then have t: "getTotalPages (manager v) l = Inr tot" by simp
  from render_pagination(1) [OF t] assms [OF t]
  show "inRange (currentPage (manager (fst (render l v)))) tot \<and>
        renderPagination (manager (fst (render l v))) l = Inr (pagination (fst (render l v)))"
    by simp
qed

lemma inRange_one [simp]: "inRange 1 tot"
  by (simp add: inRange_def)

lemma enabled_button_inRange:
  assumes r: "inRange page tot" and t: "1 < tot"
    and b: "b \<in> set ([\<lparr>disabled = (page = 1), data_page = page - 1\<rparr>]
                  @ map (\<lambda>i. \<lparr>disabled = False, data_page = i\<rparr>) [1..tot]
                  @ [\<lparr>disabled = (page = tot), data_page = page + 1\<rparr>])"
    and e: "\<not> disabled b"
  shows "inRange (data_page b) tot"
  using assms by (auto simp: inRange_def)

lemma onPaginationClick_consistent:
  assumes "consistent l v"
  shows "consistent l (fst (onPaginationClick i l v))"
proof (cases "i < length (pagination v) \<and> \<not> disabled (pagination v ! i)")
  case False
  with assms show ?thesis by (auto simp: onPaginationClick_def)
next
  case True
  let ?b = "pagination v ! i"
  let ?v = "v\<lparr>manager := (manager v)\<lparr>currentPage := data_page ?b\<rparr>\<rparr>"
  have "consistent l (fst (render l ?v))"
  proof (rule render_consistent)
    fix tot
    assume "getTotalPages (manager ?v) l = Inr tot"
    then have t: "getTotalPages (manager v) l = Inr tot" by simp
    with assms have r: "inRange (currentPage (manager v)) tot"
      and p: "renderPagination (manager v) l = Inr (pagination v)"
      by (simp_all add: consistent_def)
    from True have mem: "?b \<in> set (pagination v)" by simp
    show "inRange (currentPage (manager ?v)) tot"
    proof (cases "tot \<le> 1")
      case True
      with p t have "pagination v = []" by (simp add: renderPagination_def)
      with mem show ?thesis by simp
    next
      case False
      with p t have "pagination v =
          [\<lparr>disabled = (currentPage (manager v) = 1), data_page = currentPage (manager v) - 1\<rparr>]
          @ map (\<lambda>i. \<lparr>disabled = False, data_page = i\<rparr>) [1..tot]
          @ [\<lparr>disabled = (currentPage (manager v) = tot), data_page = currentPage (manager v) + 1\<rparr>]"
        by (simp add: renderPagination_def)
      with mem have "?b \<in> set ([\<lparr>disabled = (currentPage (manager v) = 1), data_page = currentPage (manager v) - 1\<rparr>]
          @ map (\<lambda>i. \<lparr>disabled = False, data_page = i\<rparr>) [1..tot]
          @ [\<lparr>disabled = (currentPage (manager v) = tot), data_page = currentPage (manager v) + 1\<rparr>])"
        by simp
      from enabled_button_inRange [OF r _ this] False True
      show ?thesis by simp
    qed
  qed
  with True show ?thesis by (simp add: onPaginationClick_def)
qed

lemma onSearchInput_consistent: "consistent l (fst (onSearchInput q l v))"
  unfolding onSearchInput_def by (rule render_consistent) simp

lemma onCategoryClick_consistent: "consistent l (fst (onCategoryClick c l v))"
  unfolding onCategoryClick_def by (rule render_consistent) simp

lemma onTagClick_consistent: "consistent l v \<Longrightarrow> consistent l (fst (onTagClick t l v))"
  unfolding onTagClick_def by (auto intro: render_consistent)

lemma handlers_listening [simp]:
  "listening (fst (onSearchInput q l v)) = listening v"
  "listening (fst (onCategoryClick c l v)) = listening v"
  "listening (fst (onTagClick t l v)) = listening v"
  "listening (fst (onPaginationClick i l v)) = listening v"
  by (simp_all add: onSearchInput_def onCategoryClick_def onTagClick_def onPaginationClick_def)

lemma handle_invariant:
  assumes "invariant w"
    and "\<And>l v. consistent l v \<Longrightarrow> consistent l (fst (h l v))"
    and "\<And>l v. listening (fst (h l v)) = listening v"
  shows "invariant (handle h w)"
  using assms by (auto simp: invariant_def handle_def)

lemma consistent_listening [simp]: "consistent l (v\<lparr>listening := x\<rparr>) = consistent l v"
  by (simp add: consistent_def)

lemma getFilteredPosts_no_query:
  "searchQuery b = '''' \<Longrightarrow> getFilteredPosts b l = getFilteredPosts b l'"
  by (simp add: getFilteredPosts_def bySearch_def)

lemma getTotalPages_no_query:
  "searchQuery b = '''' \<Longrightarrow> getTotalPages b l = getTotalPages b l'"
  by (simp add: getTotalPages_def getFilteredPosts_no_query [of b l l'])

lemma applyTranslations_frame [simp]:
  "i18n (applyTranslations w) = i18n w" "view (applyTranslations w) = view w"
  by (simp_all add: applyTranslations_def)

lemma updateLangButtons_frame [simp]:
  "i18n (updateLangButtons w) = i18n w" "view (updateLangButtons w) = view w"
  by (simp_all add: updateLangButtons_def)

lemma callAll_single: "fst (callAll [cb] lang v) = fst (cb lang v)"
  by (simp split: prod.splits option.splits)

lemma notifyObservers_frame [simp]:
  "i18n (fst (notifyObservers w)) = i18n w"
  "view (fst (notifyObservers w)) = fst (callAll (observers (i18n w)) (currentLang (i18n w)) (view w))"
  by (simp_all add: notifyObservers_def split: prod.splits)

lemma setLanguage_invariant:
  assumes inv: "invariant w" and q: "searchQuery (manager (view w)) = ''''"
  shows "invariant (fst (setLanguage lang w))"
proof (cases "\<exists>code. lang = Str code \<and> (code = ''en'' \<or> code = ''pt'')")
  case False
  then have "setLanguage lang w = (w, None)"
    by (cases lang) (auto simp: setLanguage_def)
  with inv show ?thesis by simp
next
  case True
  then obtain code where lang: "lang = Str code" and code: "code = ''en'' \<or> code = ''pt''"
    by blast
  define w1 where "w1 = updateLangButtons (applyTranslations
      (w\<lparr>i18n := (i18n w)\<lparr>currentLang := code\<rparr>, stored_language := Some code\<rparr>))"
  have set: "setLanguage lang w = notifyObservers w1"
    using lang code by (auto simp: setLanguage_def w1_def)
  have i: "i18n w1 = (i18n w)\<lparr>currentLang := code\<rparr>" and v: "view w1 = view w"
    by (simp_all add: w1_def)
  show ?thesis
  proof (cases "listening (view w)")
    case False
    with inv have "observers (i18n w) = []" "currentPage (manager (view w)) = 1"
      by (simp_all add: invariant_def)
    with False show ?thesis by (simp add: set i v invariant_def)
  next
    case True
    with inv have obs: "observers (i18n w) = [blogCallback]"
      and con: "consistent (Some (currentLang (i18n w))) (view w)"
      by (simp_all add: invariant_def)
    have "consistent (Some code) (fst (render (Some code) (view w)))"
    proof (rule render_consistent)
      fix tot
      assume "getTotalPages (manager (view w)) (Some code) = Inr tot"
      then have "getTotalPages (manager (view w)) (Some (currentLang (i18n w))) = Inr tot"
        using getTotalPages_no_query [OF q, of "Some code" "Some (currentLang (i18n w))"] by simp
      with con show "inRange (currentPage (manager (view w))) tot"
        by (simp add: consistent_def)
    qed
    with True obs show ?thesis
      by (simp add: set i v invariant_def callAll_single blogCallback_def del: callAll.simps)
  qed
qed

lemma blogPage_invariant: "invariant (blogPage stored data)"
proof (cases data)
  case None
  then show ?thesis
    by (simp add: blogPage_def loadBlog_def invariant_def I18n_constructor_def BlogManager_constructor_def)
next
  case (Some ps)
  define l where "l = Some (currentLang (I18n_constructor stored :: blog_view I18n))"
  define v0 where "v0 = \<lparr>manager = BlogManager_init data, grid = [], pagination = [], listening = False\<rparr>"
  have cp: "currentPage (manager v0) = 1"
    by (simp add: v0_def BlogManager_init_def BlogManager_constructor_def Some)
  have con: "consistent l (fst (render l v0))"
    by (rule render_consistent) (simp add: cp)
  obtain v r where r: "render l v0 = (v, r)" by (cases "render l v0")
  with con have v: "consistent l v" by simp
  from r have "manager v = manager v0" using render_manager [of l v0] by simp
  with cp have cpv: "currentPage (manager v) = 1" by simp
  show ?thesis
  proof (cases r)
    case None
    with r v Some show ?thesis
      by (simp add: blogPage_def loadBlog_def invariant_def subscribe_def
          I18n_constructor_def l_def v0_def)
  next
    case (Some e)
    with r cpv \<open>data = Some ps\<close> show ?thesis
      using render_listening [of l v0]
      by (simp add: blogPage_def loadBlog_def invariant_def I18n_constructor_def l_def v0_def)
  qed
qed

lemma step_invariant:
  assumes "invariant w"
    and "case e of LangClick lang \<Rightarrow> searchQuery (manager (view w)) = '''' | _ \<Rightarrow> True"
  shows "invariant (step e w)"
proof (cases e)
  case (SearchInput q)
  with assms(1) show ?thesis
    by (simp add: handle_invariant onSearchInput_consistent)
next
  case (CategoryClick c)
  with assms(1) show ?thesis
    by (simp add: handle_invariant onCategoryClick_consistent)
next
  case (TagClick t)
  with assms(1) show ?thesis
    by (simp add: handle_invariant onTagClick_consistent)
next
  case (PaginationClick i)
  with assms(1) show ?thesis
    by (simp add: handle_invariant onPaginationClick_consistent)
next
  case (LangClick lang)
  with assms show ?thesis by (simp add: setLanguage_invariant)
qed

lemma run_invariant: "invariant w \<Longrightarrow> admissible w es \<Longrightarrow> invariant (run es w)"
proof (induction es arbitrary: w)
  case Nil
  then show ?case by (simp add: run_def)
next
  case (Cons e es)
  from Cons.prems have "invariant (step e w)" by (auto intro: step_invariant)
  moreover from Cons.prems have "admissible (step e w) es" by simp
  ultimately have "invariant (run es (step e w))" by (rule Cons.IH)
  then show ?case by (simp add: run_def)
qed

text \<open>
  C4, as the code has it. After any sequence of search, category, tag and pagination
  events, and of language changes made while the search box is empty, the page number is
  at least \<open>1\<close> and at most the larger of \<open>1\<close> and \<open>getTotalPages()\<close>; and \<open>getTotalPages()\<close> is
  the ceiling of a sixth of the length of what \<open>getFilteredPosts()\<close> returns in that very
  state.
\<close>

theorem page_within_range:
  assumes "admissible (blogPage stored data) es"
    and "totalPages (run es (blogPage stored data)) = Inr tot"
  shows "1 \<le> pageNumber (run es (blogPage stored data))
    \<and> pageNumber (run es (blogPage stored data)) \<le> max 1 tot
    \<and> (\<exists>fs. getFilteredPosts (manager (view (run es (blogPage stored data))))
              (Some (currentLang (i18n (run es (blogPage stored data))))) = Inr fs
         \<and> tot = \<lceil>rat_of_nat (length fs) / 6\<rceil>)"
proof -
  let ?w = "run es (blogPage stored data)"
  have inv: "invariant ?w"
    using blogPage_invariant assms(1) by (rule run_invariant)
  have "inRange (pageNumber ?w) tot"
  proof (cases "listening (view ?w)")
    case True
    with inv assms(2) show ?thesis
      by (simp add: invariant_def consistent_def totalPages_def pageNumber_def)
  next
    case False
    with inv show ?thesis by (simp add: invariant_def pageNumber_def)
  qed
  moreover from assms(2) have "\<exists>fs. getFilteredPosts (manager (view ?w))
      (Some (currentLang (i18n ?w))) = Inr fs \<and> tot = \<lceil>rat_of_nat (length fs) / 6\<rceil>"
    by (simp add: totalPages_def getTotalPages_Inr)
  ultimately show ?thesis by (simp add: inRange_def)
qed

theorem page_within_range_witness:
  "admissible (blogPage None (Some example_posts))
     [TagClick ''x'', PaginationClick 3, LangClick (Str ''pt'')]
   \<and> totalPages (run [TagClick ''x'', PaginationClick 3, LangClick (Str ''pt'')]
        (blogPage None (Some example_posts))) = Inr 2
   \<and> 1 \<le> pageNumber (run [TagClick ''x'', PaginationClick 3, LangClick (Str ''pt'')]
        (blogPage None (Some example_posts)))
   \<and> pageNumber (run [TagClick ''x'', PaginationClick 3, LangClick (Str ''pt'')]
        (blogPage None (Some example_posts))) \<le> 2"
proof -
  have a: "admissible (blogPage None (Some example_posts))
     [TagClick ''x'', PaginationClick 3, LangClick (Str ''pt'')]"
    by code_simp
  have t: "totalPages (run [TagClick ''x'', PaginationClick 3, LangClick (Str ''pt'')]
        (blogPage None (Some example_posts))) = Inr 2"
    by code_simp
  from page_within_range [OF a t] a t show ?thesis by simp
qed

text \<open>
  C4, as the specification words it, has the page number within \<open>[1, totalPages]\<close>. A search
  that matches nothing leaves page \<open>1\<close> of \<open>0\<close> pages.
\<close>

theorem page_above_zero_pages:
  "totalPages (run [SearchInput ''zz''] (blogPage None (Some example_posts))) = Inr 0
   \<and> pageNumber (run [SearchInput ''zz''] (blogPage None (Some example_posts))) = 1
   \<and> \<not> (1 \<le> pageNumber (run [SearchInput ''zz''] (blogPage None (Some example_posts)))
        \<and> pageNumber (run [SearchInput ''zz''] (blogPage None (Some example_posts))) \<le> 0)"
  by code_simp

text \<open>
  A language change re-renders with the page number as it is. With a search active the
  new language can match fewer posts: here the second of two pages becomes page \<open>2\<close> of
  none.
\<close>

lemma language_change_keeps_page:
  "totalPages (run [SearchInput ''hi'', PaginationClick 2, LangClick (Str ''pt'')]
      (blogPage None (Some example_posts))) = Inr 0
   \<and> pageNumber (run [SearchInput ''hi'', PaginationClick 2, LangClick (Str ''pt'')]
      (blogPage None (Some example_posts))) = 2"
  by code_simp

section \<open>Looking up a translation\<close>

lemma walk_lookupPath:
  assumes "\<forall>k \<in> set ks. \<not> inheritedName k"
  shows "(case walk v ks of None \<Rightarrow> Str key | Some x \<Rightarrow> if truthy x then x else Str key)
       = (case lookupPath v ks of None \<Rightarrow> Str key | Some x \<Rightarrow> if truthy x then x else Str key)"
  using assms
proof (induction ks arbitrary: v)
  case Nil
  show ?case by simp
next
  case (Cons k ks)
  then have k: "\<not> inheritedName k" and ks: "\<forall>k \<in> set ks. \<not> inheritedName k" by simp_all
  have undef: "(case walk Undefined ks of None \<Rightarrow> Str key | Some x \<Rightarrow> if truthy x then x else Str key)
      = Str key"
    by (cases ks) (simp_all add: truthy_def)
  show ?case
  proof (cases v)
    case (Obj kvs)
    show ?thesis
    proof (cases "map_of kvs k")
      case None
      with k Obj undef show ?thesis
        by (simp add: truthy_def objectProp_def prototypeProp_def inheritedName_def)
    next
      case (Some x)
      with Obj Cons.IH [OF ks, of x] show ?thesis
        by (simp add: truthy_def objectProp_def)
    qed
  next
    case ObjectPrototype
    with k undef show ?thesis
      by (simp add: truthy_def prototypeProp_def inheritedName_def)
  qed (simp_all add: truthy_def)
qed

lemma translate_resolve:
  assumes "\<forall>k \<in> set (currentLang i # split_dot key). \<not> inheritedName k"
  shows "translate i key = (case resolve i key of
            None \<Rightarrow> Str key
          | Some v \<Rightarrow> if truthy v then v else Str key)"
proof -
  from assms have l: "\<not> inheritedName (currentLang i)"
    and ks: "\<forall>k \<in> set (split_dot key). \<not> inheritedName k" by simp_all
  have undef: "(case walk Undefined (split_dot key) of None \<Rightarrow> Str key
      | Some x \<Rightarrow> if truthy x then x else Str key) = Str key"
    by (cases "split_dot key") (simp_all add: truthy_def)
  show ?thesis
  proof (cases "map_of (translationTable i) (currentLang i)")
    case None
    with l undef show ?thesis
      by (simp add: translate_def resolve_def objectProp_def prototypeProp_def inheritedName_def)
  next
    case (Some t)
    with walk_lookupPath [OF ks, where v = t and key = key] show ?thesis
      by (simp add: translate_def resolve_def objectProp_def)
  qed
qed

lemma translate_nonempty: "key \<noteq> '''' \<Longrightarrow> translate i key \<noteq> Str ''''"
  by (auto simp: translate_def truthy_def split: option.splits)

text \<open>
  C5, as the code has it. \<open>translate\<close> is a total function: no step of it can raise. When
  neither the language code nor a segment of the key is the name of a member that objects
  inherit, it returns what the path leads to in the table of the current language if
  every segment is there and that value is truthy (a nested object or a non-empty
  string), and the key itself otherwise. The result is the empty string for no key but
  the empty one.
\<close>

theorem translate_resolves:
  assumes "\<forall>k \<in> set (currentLang i # split_dot key). \<not> inheritedName k"
  shows "translate i key = (case resolve i key of
            None \<Rightarrow> Str key
          | Some v \<Rightarrow> if truthy v then v else Str key)
      \<and> (key \<noteq> '''' \<longrightarrow> translate i key \<noteq> Str '''')"
  using assms translate_resolve [of i key] translate_nonempty [of key i] by blast

theorem translate_resolves_witness:
  "translate (i18n example_browser) ''nav.home'' = Str ''Home''
   \<and> translate (i18n example_browser) ''nav.about'' = Str ''nav.about''
   \<and> translate (i18n example_browser) ''nav.blank'' = Str ''nav.blank''
   \<and> translate (i18n example_browser) ''nav.home.more'' = Str ''nav.home.more''"
proof -
  have h: "\<forall>k \<in> set (currentLang (i18n example_browser) # split_dot ''nav.home''). \<not> inheritedName k"
    "\<forall>k \<in> set (currentLang (i18n example_browser) # split_dot ''nav.about''). \<not> inheritedName k"
    "\<forall>k \<in> set (currentLang (i18n example_browser) # split_dot ''nav.blank''). \<not> inheritedName k"
    "\<forall>k \<in> set (currentLang (i18n example_browser) # split_dot ''nav.home.more''). \<not> inheritedName k"
    by code_simp+
  have r: "resolve (i18n example_browser) ''nav.home'' = Some (Str ''Home'')"
    "resolve (i18n example_browser) ''nav.about'' = None"
    "resolve (i18n example_browser) ''nav.blank'' = Some (Str '''')"
    "resolve (i18n example_browser) ''nav.home.more'' = None"
    by code_simp+
  from translate_resolves [OF h(1)] translate_resolves [OF h(2)]
    translate_resolves [OF h(3)] translate_resolves [OF h(4)] r
  show ?thesis by (simp add: truthy_def)
qed

text \<open>
  C5, as the specification words it, has \<open>translate\<close> never return the empty string. It
  returns the empty key as it is.
\<close>

theorem translate_empty_key: "translate (i18n example_browser) '''' = Str ''''"
  by code_simp

text \<open>
  A string that is no key of the table comes back unchanged, as long as neither the
  language code nor one of its segments is the name of an inherited member.
\<close>

lemma translate_unmatched:
  assumes "\<forall>k \<in> set (currentLang i # split_dot s). \<not> inheritedName k"
    and "resolve i s = None"
  shows "translate i s = Str s"
  using translate_resolve [OF assms(1)] assms(2) by simp

text \<open>
  C6: a string that matches no key of the table of the current language is returned
  unchanged. The code fails this on the name of an inherited member: \<open>constructor\<close> is no
  key of the example table, and \<open>translate\<close> returns the built-in function of that name,
  not the string.
\<close>

theorem translate_inherited_member:
  "resolve (i18n example_browser) ''constructor'' = None
   \<and> translate (i18n example_browser) ''constructor'' = Builtin ''constructor''
   \<and> translate (i18n example_browser) ''constructor'' \<noteq> Str ''constructor''"
  by code_simp

section \<open>Changing the language\<close>

text \<open>
  C7. \<open>setLanguage\<close> with anything but \<open>'en'\<close> or \<open>'pt'\<close> returns the page as it was: language,
  stored language, observers, the text of every element and the subscribers' state.
\<close>

theorem setLanguage_unrecognized:
  assumes "lang \<noteq> Str ''en''" and "lang \<noteq> Str ''pt''"
  shows "setLanguage lang w = (w, None)"
  using assms by (cases lang) (simp_all add: setLanguage_def)

theorem setLanguage_unrecognized_witness:
  "setLanguage (Str ''fr'') example_browser = (example_browser, None)
   \<and> setLanguage Null example_browser = (example_browser, None)"
  using setLanguage_unrecognized [of "Str ''fr''" example_browser]
    setLanguage_unrecognized [of Null example_browser]
  by simp

lemma stateBefore_0 [simp]: "stateBefore cbs lang v 0 = v"
  by (simp add: stateBefore_def)

lemma stateBefore_Suc [simp]:
  "stateBefore (cb # cbs) lang v (Suc j) = stateBefore cbs lang (fst (cb lang v)) j"
  by (simp add: stateBefore_def)





text \<open>
  C10, as the specification words it, has every subscriber notified. When the first of two
  subscribers raises, the second is not called.
\<close>

theorem later_subscriber_not_notified:
  "currentLang (i18n failing_browser) = ''en''
   \<and> observers (i18n failing_browser) = [failing ''blog'', logger ''research'']
   \<and> view failing_browser = []
   \<and> view (fst (setLanguage (Str ''en'') failing_browser)) = [''blog:en'']
   \<and> snd (setLanguage (Str ''en'') failing_browser) = Some TypeError"
  by (simp add: failing_browser_def stale_browser_def setLanguage_def notifyObservers_def
      applyTranslations_def updateLangButtons_def failing_def logger_def)

section \<open>Colour conversion of the presets\<close>

lemma floor_rat_numeral [simp]:
  "\<lfloor>numeral a / numeral b :: rat\<rfloor> = numeral a div numeral b"
  by (metis floor_divide_of_int_eq of_int_numeral)

lemma floor_rat_one [simp]:
  "\<lfloor>1 / numeral b :: rat\<rfloor> = 1 div numeral b"
  by (metis floor_divide_of_int_eq of_int_1 of_int_numeral)

text \<open>
  The three channels of each preset at saturation 70 and lightness 50, before they are
  scaled to bytes.
\<close>

lemma preset_channels:
  "hsl_channel 220 (7 / 10) (1 / 2) 0 = 3 / 20"
  "hsl_channel 220 (7 / 10) (1 / 2) 8 = 23 / 60"
  "hsl_channel 220 (7 / 10) (1 / 2) 4 = 17 / 20"
  "hsl_channel 150 (7 / 10) (1 / 2) 0 = 3 / 20"
  "hsl_channel 150 (7 / 10) (1 / 2) 8 = 17 / 20"
  "hsl_channel 150 (7 / 10) (1 / 2) 4 = 1 / 2"
  "hsl_channel 25 (7 / 10) (1 / 2) 0 = 17 / 20"
  "hsl_channel 25 (7 / 10) (1 / 2) 8 = 53 / 120"
  "hsl_channel 25 (7 / 10) (1 / 2) 4 = 3 / 20"
  "hsl_channel 270 (7 / 10) (1 / 2) 0 = 1 / 2"
  "hsl_channel 270 (7 / 10) (1 / 2) 8 = 3 / 20"
  "hsl_channel 270 (7 / 10) (1 / 2) 4 = 17 / 20"
  "hsl_channel 350 (7 / 10) (1 / 2) 0 = 17 / 20"
  "hsl_channel 350 (7 / 10) (1 / 2) 8 = 3 / 20"
  "hsl_channel 350 (7 / 10) (1 / 2) 4 = 4 / 15"
  "hsl_channel 195 (7 / 10) (1 / 2) 0 = 3 / 20"
  "hsl_channel 195 (7 / 10) (1 / 2) 8 = 27 / 40"
  "hsl_channel 195 (7 / 10) (1 / 2) 4 = 17 / 20"
  "hsl_channel 45 (7 / 10) (1 / 2) 0 = 17 / 20"
  "hsl_channel 45 (7 / 10) (1 / 2) 8 = 27 / 40"
  "hsl_channel 45 (7 / 10) (1 / 2) 4 = 3 / 20"
  "hsl_channel 215 (7 / 10) (1 / 2) 0 = 3 / 20"
  "hsl_channel 215 (7 / 10) (1 / 2) 8 = 53 / 120"
  "hsl_channel 215 (7 / 10) (1 / 2) 4 = 17 / 20"
  by (simp_all add: hsl_channel_def js_rem_def Let_def)

lemma byte_hex:
  "padStart2 (toString 38 16) = ''26''" "padStart2 (toString 98 16) = ''62''"
  "padStart2 (toString 217 16) = ''d9''" "padStart2 (toString 128 16) = ''80''"
  "padStart2 (toString 113 16) = ''71''" "padStart2 (toString 68 16) = ''44''"
  "padStart2 (toString 172 16) = ''ac''"
  by code_simp+

lemma hslToHex_presets:
  "hslToHex 220 70 50 = ''#2662d9''" "hslToHex 150 70 50 = ''#26d980''"
  "hslToHex 25 70 50 = ''#d97126''" "hslToHex 270 70 50 = ''#8026d9''"
  "hslToHex 350 70 50 = ''#d92644''" "hslToHex 195 70 50 = ''#26acd9''"
  "hslToHex 45 70 50 = ''#d9ac26''" "hslToHex 215 70 50 = ''#2671d9''"
  by (simp_all add: hslToHex_def Let_def preset_channels Math_round_def byte_hex)

lemma hex_pairs:
  "slice ''#2662d9'' 1 3 = ''26''" "slice ''#2662d9'' 3 5 = ''62''" "slice ''#2662d9'' 5 7 = ''d9''"
  "slice ''#26d980'' 1 3 = ''26''" "slice ''#26d980'' 3 5 = ''d9''" "slice ''#26d980'' 5 7 = ''80''"
  "slice ''#d97126'' 1 3 = ''d9''" "slice ''#d97126'' 3 5 = ''71''" "slice ''#d97126'' 5 7 = ''26''"
  "slice ''#8026d9'' 1 3 = ''80''" "slice ''#8026d9'' 3 5 = ''26''" "slice ''#8026d9'' 5 7 = ''d9''"
  "slice ''#d92644'' 1 3 = ''d9''" "slice ''#d92644'' 3 5 = ''26''" "slice ''#d92644'' 5 7 = ''44''"
  "slice ''#26acd9'' 1 3 = ''26''" "slice ''#26acd9'' 3 5 = ''ac''" "slice ''#26acd9'' 5 7 = ''d9''"
  "slice ''#d9ac26'' 1 3 = ''d9''" "slice ''#d9ac26'' 3 5 = ''ac''" "slice ''#d9ac26'' 5 7 = ''26''"
  "slice ''#2671d9'' 1 3 = ''26''" "slice ''#2671d9'' 3 5 = ''71''" "slice ''#2671d9'' 5 7 = ''d9''"
  by code_simp+

lemma pair_values:
  "parseInt ''26'' 16 = Some 38" "parseInt ''62'' 16 = Some 98" "parseInt ''d9'' 16 = Some 217"
  "parseInt ''80'' 16 = Some 128" "parseInt ''71'' 16 = Some 113" "parseInt ''44'' 16 = Some 68"
  "parseInt ''ac'' 16 = Some 172"
  by code_simp+

lemma hexToHsl_hue:
  assumes "parseInt (slice hex 1 3) 16 = Some ri" "parseInt (slice hex 3 5) 16 = Some gi"
    "parseInt (slice hex 5 7) 16 = Some bi"
  shows "\<exists>c. hexToHsl hex = Some c \<and> hsl_h c
    = Math_round (hue_fraction (rat_of_int ri / 255) (rat_of_int gi / 255)
        (rat_of_int bi / 255) * 360)"
  using assms by (simp add: hexToHsl_def Let_def)

lemma preset_hues:
  "hue_fraction (38 / 255) (98 / 255) (217 / 255) * 360 = 39360 / 179"
  "hue_fraction (38 / 255) (217 / 255) (128 / 255) * 360 = 26880 / 179"
  "hue_fraction (217 / 255) (113 / 255) (38 / 255) * 360 = 4500 / 179"
  "hue_fraction (128 / 255) (38 / 255) (217 / 255) * 360 = 48360 / 179"
  "hue_fraction (217 / 255) (38 / 255) (4 / 15) * 360 = 62640 / 179"
  "hue_fraction (38 / 255) (172 / 255) (217 / 255) * 360 = 34920 / 179"
  "hue_fraction (217 / 255) (172 / 255) (38 / 255) * 360 = 8040 / 179"
  "hue_fraction (38 / 255) (113 / 255) (217 / 255) * 360 = 38460 / 179"
  by (simp_all add: hue_fraction_def Let_def)

lemma hexToHsl_presets:
  "\<exists>c. hexToHsl ''#2662d9'' = Some c \<and> hsl_h c = 220"
  "\<exists>c. hexToHsl ''#26d980'' = Some c \<and> hsl_h c = 150"
  "\<exists>c. hexToHsl ''#d97126'' = Some c \<and> hsl_h c = 25"
  "\<exists>c. hexToHsl ''#8026d9'' = Some c \<and> hsl_h c = 270"
  "\<exists>c. hexToHsl ''#d92644'' = Some c \<and> hsl_h c = 350"
  "\<exists>c. hexToHsl ''#26acd9'' = Some c \<and> hsl_h c = 195"
  "\<exists>c. hexToHsl ''#d9ac26'' = Some c \<and> hsl_h c = 45"
  "\<exists>c. hexToHsl ''#2671d9'' = Some c \<and> hsl_h c = 215"
proof -
  note parsed = hex_pairs pair_values
  show "\<exists>c. hexToHsl ''#2662d9'' = Some c \<and> hsl_h c = 220"
    using hexToHsl_hue [of "''#2662d9''" 38 98 217] by (simp add: parsed preset_hues Math_round_def)
  show "\<exists>c. hexToHsl ''#26d980'' = Some c \<and> hsl_h c = 150"
    using hexToHsl_hue [of "''#26d980''" 38 217 128] by (simp add: parsed preset_hues Math_round_def)
  show "\<exists>c. hexToHsl ''#d97126'' = Some c \<and> hsl_h c = 25"
    using hexToHsl_hue [of "''#d97126''" 217 113 38] by (simp add: parsed preset_hues Math_round_def)
  show "\<exists>c. hexToHsl ''#8026d9'' = Some c \<and> hsl_h c = 270"
    using hexToHsl_hue [of "''#8026d9''" 128 38 217] by (simp add: parsed preset_hues Math_round_def)
  show "\<exists>c. hexToHsl ''#d92644'' = Some c \<and> hsl_h c = 350"
    using hexToHsl_hue [of "''#d92644''" 217 38 68] by (simp add: parsed preset_hues Math_round_def)
  show "\<exists>c. hexToHsl ''#26acd9'' = Some c \<and> hsl_h c = 195"
    using hexToHsl_hue [of "''#26acd9''" 38 172 217] by (simp add: parsed preset_hues Math_round_def)
  show "\<exists>c. hexToHsl ''#d9ac26'' = Some c \<and> hsl_h c = 45"
    using hexToHsl_hue [of "''#d9ac26''" 217 172 38] by (simp add: parsed preset_hues Math_round_def)
  show "\<exists>c. hexToHsl ''#2671d9'' = Some c \<and> hsl_h c = 215"
    using hexToHsl_hue [of "''#2671d9''" 38 113 217] by (simp add: parsed preset_hues Math_round_def)
qed

text \<open>
  C8. Each of the eight preset hues, converted by \<open>hslToHex\<close> at saturation 70 and lightness
  50 and back by \<open>hexToHsl\<close>, comes back within one degree (in fact unchanged).
\<close>

theorem presets_round_trip:
  "list_all (\<lambda>(key, hue, name).
      case hexToHsl (hslToHex (rat_of_int hue) 70 50) of
        None \<Rightarrow> False
      | Some c \<Rightarrow> \<bar>hsl_h c - hue\<bar> \<le> 1) presets"
  using hexToHsl_presets by (auto simp: presets_def hslToHex_presets)

text \<open>
  The source computes in binary floating point, the model in exact rationals. On the
  presets the two agree: every value that \<open>Math.round\<close> receives is either at least an
  eighth away from a tie, far more than the rounding error of the few operations before
  it, or it is the tie \<open>127.5\<close>, which arises as \<open>255 * 0.5\<close> from a hue that is a multiple of
  \<open>30\<close> and is exact in floating point as well.
\<close>

lemma presets_channel_margins:
  "list_all (\<lambda>(key, hue, name). list_all (\<lambda>n.
      255 * hsl_channel (rat_of_int hue) (7 / 10) (1 / 2) n = 255 / 2
      \<or> 1 / 8 \<le> tie_distance (255 * hsl_channel (rat_of_int hue) (7 / 10) (1 / 2) n))
      [0, 8, 4]) presets"
  by (simp add: presets_def preset_channels tie_distance_def)

lemma presets_hue_margins:
  "1 / 4 \<le> tie_distance (39360 / 179)" "1 / 4 \<le> tie_distance (26880 / 179)"
  "1 / 4 \<le> tie_distance (4500 / 179)" "1 / 4 \<le> tie_distance (48360 / 179)"
  "1 / 4 \<le> tie_distance (62640 / 179)" "1 / 4 \<le> tie_distance (34920 / 179)"
  "1 / 4 \<le> tie_distance (8040 / 179)" "1 / 4 \<le> tie_distance (38460 / 179)"
  by (simp_all add: tie_distance_def)

text \<open>
  A value closer to \<open>x\<close> than \<open>x\<close> is to a tie is rounded as \<open>x\<close> is, so a margin of an
  eighth absorbs any error below an eighth.
\<close>

lemma Math_round_stable:
  assumes "\<bar>y - x\<bar> < tie_distance x"
  shows "Math_round y = Math_round x"
proof -
  define n where "n = \<lfloor>x\<rfloor>"
  have n: "rat_of_int n \<le> x" "x < rat_of_int n + 1"
    unfolding n_def by linarith+
  have td: "tie_distance x = \<bar>x - (rat_of_int n + 1 / 2)\<bar>"
    by (simp add: tie_distance_def n_def)
  show ?thesis
  proof (cases "x < rat_of_int n + 1 / 2")
    case True
    with assms td n have "rat_of_int n \<le> y + 1 / 2" "y + 1 / 2 < rat_of_int n + 1"
      by (simp_all add: abs_if split: if_splits)
    then have "\<lfloor>y + 1 / 2\<rfloor> = n" by linarith
    moreover from True n have "\<lfloor>x + 1 / 2\<rfloor> = n" by linarith
    ultimately show ?thesis by (simp add: Math_round_def)
  next
    case False
    with assms td n have "rat_of_int (n + 1) \<le> y + 1 / 2" "y + 1 / 2 < rat_of_int (n + 1) + 1"
      by (simp_all add: abs_if split: if_splits)
    then have "\<lfloor>y + 1 / 2\<rfloor> = n + 1" by linarith
    moreover from False n have "\<lfloor>x + 1 / 2\<rfloor> = n + 1" by linarith
    ultimately show ?thesis by (simp add: Math_round_def)
  qed
qed

section \<open>The stored hue\<close>


text \<open>
  \<open>parseInt\<close> reads back what \<open>toString\<close> writes in base ten. This is how the hue that
  \<open>applyTheme\<close> stores returns at the next load, and how the pagination handler gets back
  the page number that \<open>renderPagination\<close> wrote into \<open>data-page\<close>.
\<close>

lemma decimal_digits:
  "list_all (\<lambda>d. digit_of (digit_char d) = Some d \<and> \<not> is_space (digit_char d)
      \<and> digit_char d \<notin> set ''-+xX'') [0, 1, 2, 3, 4, 5, 6, 7, 8, 9]"
  by code_simp

lemma decimal_digit:
  assumes "d < 10"
  shows "digit_of (digit_char d) = Some d" and "\<not> is_space (digit_char d)"
    and "digit_char d \<notin> set ''-+xX''"
proof -
  from assms have "d \<in> set [0, 1, 2, 3, 4, 5, 6, 7, 8, 9]" by auto
  with decimal_digits
  have "digit_of (digit_char d) = Some d \<and> \<not> is_space (digit_char d)
      \<and> digit_char d \<notin> set ''-+xX''"
    unfolding list_all_iff by blast
  then show "digit_of (digit_char d) = Some d" and "\<not> is_space (digit_char d)"
    and "digit_char d \<notin> set ''-+xX''"
    by blast+
qed

declare nat_digits.simps [simp del]

lemma digits_value_snoc:
  "digits_value R (z @ [c]) = digits_value R z * int R + int (the (digit_of c))"
  by (simp add: digits_value_def)

lemma nat_digits_decimal:
  "nat_digits 10 n \<noteq> [] \<and> (\<forall>c \<in> set (nat_digits 10 n). \<exists>d < 10. c = digit_char d)
   \<and> digits_value 10 (nat_digits 10 n) = int n"
proof (induction n rule: less_induct)
  case (less n)
  show ?case
  proof (cases "n < 10")
    case True
    then have "nat_digits 10 n = [digit_char n]" by (subst nat_digits.simps) simp
    with True show ?thesis
      by (auto simp: digits_value_def decimal_digit(1))
  next
    case False
    then have "n div 10 < n" by simp
    from less [OF this] have ih: "nat_digits 10 (n div 10) \<noteq> []"
      "\<forall>c \<in> set (nat_digits 10 (n div 10)). \<exists>d < 10. c = digit_char d"
      "digits_value 10 (nat_digits 10 (n div 10)) = int (n div 10)"
      by simp_all
    have m: "n mod 10 < 10" by simp
    have eq: "nat_digits 10 n = nat_digits 10 (n div 10) @ [digit_char (n mod 10)]"
      using False by (subst nat_digits.simps) simp
    have "digits_value 10 (nat_digits 10 n) = int (n div 10) * 10 + int (n mod 10)"
      unfolding eq digits_value_snoc using ih(3) by (simp add: decimal_digit(1) [OF m])
    also have "\<dots> = int n" by (simp add: zdiv_int zmod_int)
    finally have v: "digits_value 10 (nat_digits 10 n) = int n" .
    from m have "\<exists>d < 10. digit_char (n mod 10) = digit_char d" by blast
    with ih(2) have "\<forall>c \<in> set (nat_digits 10 n). \<exists>d < 10. c = digit_char d"
      unfolding eq by simp
    with v show ?thesis unfolding eq by simp
  qed
qed

lemma parseInt_decimal_run:
  assumes a: "dropWhile is_space s = s" and b: "take 1 s \<noteq> ''-''" and c: "take 1 s \<noteq> ''+''"
    and d: "take 2 s \<noteq> ''0x''" and e: "take 2 s \<noteq> ''0X''"
    and f: "takeWhile (is_digit 10) s = s" and g: "s \<noteq> []"
  shows "parseInt s 0 = Some (digits_value 10 s)"
proof -
  have "parseInt s 0 = (let
      s0 = s;
      sign = (if take 1 s0 = ''-'' then - 1 else 1 :: int);
      s1 = (if take 1 s0 = ''-'' \<or> take 1 s0 = ''+'' then drop 1 s0 else s0);
      stripPrefix = True;
      hex = (stripPrefix \<and> (take 2 s1 = ''0x'' \<or> take 2 s1 = ''0X''));
      R = (if hex then 16 else 10);
      s2 = (if hex then drop 2 s1 else s1);
      z = takeWhile (is_digit R) s2
    in if R < 2 \<or> 36 < R then None
       else if z = [] then None
       else Some (sign * digits_value R z))"
    unfolding parseInt_def a by simp
  also have "\<dots> = Some (digits_value 10 s)"
    unfolding Let_def using b c d e g by (simp add: f)
  finally show ?thesis .
qed

lemma parseInt_negative_run:
  assumes d: "take 2 s \<noteq> ''0x''" and e: "take 2 s \<noteq> ''0X''"
    and f: "takeWhile (is_digit 10) s = s" and g: "s \<noteq> []"
  shows "parseInt (CHR ''-'' # s) 0 = Some (- digits_value 10 s)"
proof -
  have sp: "dropWhile is_space (CHR ''-'' # s) = CHR ''-'' # s"
    by (simp add: is_space_def)
  have "parseInt (CHR ''-'' # s) 0 = (let
      s1 = s;
      stripPrefix = True;
      hex = (stripPrefix \<and> (take 2 s1 = ''0x'' \<or> take 2 s1 = ''0X''));
      R = (if hex then 16 else 10);
      s2 = (if hex then drop 2 s1 else s1);
      z = takeWhile (is_digit R) s2
    in if R < 2 \<or> 36 < R then None
       else if z = [] then None
       else Some (- 1 * digits_value R z))"
    unfolding parseInt_def sp by simp
  also have "\<dots> = Some (- digits_value 10 s)"
    unfolding Let_def using d e g by (simp add: f)
  finally show ?thesis .
qed

lemma decimal_run:
  assumes "s \<noteq> []" and "\<forall>c \<in> set s. \<exists>d < 10. c = digit_char d"
  shows "dropWhile is_space s = s" and "take 1 s \<noteq> ''-''" and "take 1 s \<noteq> ''+''"
    and "take 2 s \<noteq> ''0x''" and "take 2 s \<noteq> ''0X''" and "takeWhile (is_digit 10) s = s"
proof -
  have plain: "\<not> is_space c \<and> c \<notin> set ''-+xX'' \<and> is_digit 10 c" if "c \<in> set s" for c
  proof -
    from that assms(2) obtain d where d: "d < 10" "c = digit_char d" by blast
    from decimal_digit [OF d(1)] d show ?thesis by (simp add: is_digit_def)
  qed
  from assms(1) obtain c cs where s: "s = c # cs" by (cases s) auto
  from plain [of c] show "dropWhile is_space s = s" and "take 1 s \<noteq> ''-''" and "take 1 s \<noteq> ''+''"
    by (simp_all add: s)
  show "takeWhile (is_digit 10) s = s"
    using plain by (simp add: takeWhile_eq_all_conv)
  show "take 2 s \<noteq> ''0x''" and "take 2 s \<noteq> ''0X''"
  proof -
    have "take 2 s \<noteq> ''0x'' \<and> take 2 s \<noteq> ''0X''"
    proof (cases cs)
      case Nil
      then show ?thesis by (simp add: s)
    next
      case (Cons c' cs')
      with plain [of c'] s have "c' \<noteq> CHR ''x''" "c' \<noteq> CHR ''X''" by auto
      with Cons show ?thesis by (simp add: s numeral_2_eq_2)
    qed
    then show "take 2 s \<noteq> ''0x''" and "take 2 s \<noteq> ''0X''" by simp_all
  qed
qed

lemma parseInt_toString: "parseInt (toString n 10) 0 = Some n"
proof -
  define s where "s = nat_digits 10 (nat \<bar>n\<bar>)"
  have s: "s \<noteq> []" "\<forall>c \<in> set s. \<exists>d < 10. c = digit_char d" "digits_value 10 s = \<bar>n\<bar>"
    using nat_digits_decimal [of "nat \<bar>n\<bar>"] by (simp_all add: s_def)
  note run = decimal_run [OF s(1, 2)]
  show ?thesis
  proof (cases "n < 0")
    case True
    then have "toString n 10 = CHR ''-'' # s" by (simp add: toString_def s_def)
    with parseInt_negative_run [OF run(4, 5, 6) s(1)] s(3) True show ?thesis by simp
  next
    case False
    then have "toString n 10 = s" by (simp add: toString_def s_def)
    with parseInt_decimal_run [OF run s(1)] s(3) False show ?thesis by simp
  qed
qed

lemma stored_hue_returns:
  assumes "hue \<noteq> 0"
  shows "currentHue (ThemeManager_constructor (themeHue_item (applyTheme hue p))) = hue"
  using assms by (simp add: applyTheme_def ThemeManager_constructor_def parseInt_toString)

text \<open>
  The colour picker can hand \<open>applyTheme\<close> the hue \<open>360\<close>, which is then stored: \<open>hexToHsl\<close>
  rounds the hue of \<open>#ff0001\<close> up to it.
\<close>

lemma hex_ff0001:
  "parseInt (slice ''#ff0001'' 1 3) 16 = Some 255" "parseInt (slice ''#ff0001'' 3 5) 16 = Some 0"
  "parseInt (slice ''#ff0001'' 5 7) 16 = Some 1"
  by code_simp+

lemma picker_hue_360: "\<exists>c. hexToHsl ''#ff0001'' = Some c \<and> hsl_h c = 360"
  using hexToHsl_hue [OF hex_ff0001] by (simp add: hue_fraction_def Let_def Math_round_def)




end
